theory Spec2Isabelle
  imports Main "HOL-Library.AList"
begin

section \<open>Strings\<close>

text \<open>
  A JavaScript string is modelled as a \<^typ>\<open>string\<close>, a list of characters, one
  character per code unit. The backslash and the NUL character have no literal
  notation and get names.
\<close>

definition bslash :: char where
  "bslash = CHR 0x5C"

definition nul :: char where
  "nul = CHR 0x00"

definition startsWith :: "string \<Rightarrow> string \<Rightarrow> bool" where
  "startsWith s p = (take (length p) s = p)"

definition endsWith :: "string \<Rightarrow> string \<Rightarrow> bool" where
  "endsWith s p = (length p \<le> length s \<and> drop (length s - length p) s = p)"

text \<open>\<open>s.includes(p)\<close>: \<open>p\<close> occurs in \<open>s\<close> as a contiguous substring.\<close>

fun str_includes :: "string \<Rightarrow> string \<Rightarrow> bool" where
  "str_includes [] p = (p = [])"
| "str_includes (c # cs) p = (startsWith (c # cs) p \<or> str_includes cs p)"

text \<open>\<open>s.split(sep)\<close> for a one-character separator; the result is never empty.\<close>

fun str_split :: "char \<Rightarrow> string \<Rightarrow> string list" where
  "str_split sep [] = [[]]"
| "str_split sep (c # cs) =
     (if c = sep then [] # str_split sep cs
      else (case str_split sep cs of [] \<Rightarrow> [[c]] | p # ps \<Rightarrow> (c # p) # ps))"

text \<open>
  \<open>s.lastIndexOf('/')\<close> followed by \<open>slice(lastSlash + 1)\<close>, or the whole string when
  there is no slash: the text after the last slash.
\<close>

definition afterLastSlash :: "string \<Rightarrow> string" where
  "afterLastSlash s = rev (takeWhile (\<lambda>c. c \<noteq> CHR ''/'') (rev s))"

text \<open>\<open>s.replace(/\\/g, '/')\<close>: every backslash becomes a slash.\<close>

definition backslashesToSlashes :: "string \<Rightarrow> string" where
  "backslashesToSlashes s = map (\<lambda>c. if c = bslash then CHR ''/'' else c) s"

section \<open>escape and unescape\<close>

text \<open>
  \<open>escape\<close> replaces every character of the class \<open>[?*()[\]{}\\]\<close> (default mode) by a
  backslash and the character, and every character of \<open>[?*()[\]{}]\<close>
  (\<open>windowsPathsNoEscape\<close>) by the character wrapped in square brackets.
\<close>

definition glob_magic :: "char set" where
  "glob_magic = {CHR ''?'', CHR ''*'', CHR ''('', CHR '')'', CHR ''['', CHR '']'', CHR ''{'', CHR ''}''}"

fun escape_backslash :: "string \<Rightarrow> string" where
  "escape_backslash [] = []"
| "escape_backslash (c # cs) =
     (if c \<in> glob_magic \<or> c = bslash then bslash # c # escape_backslash cs
      else c # escape_backslash cs)"

fun escape_brackets :: "string \<Rightarrow> string" where
  "escape_brackets [] = []"
| "escape_brackets (c # cs) =
     (if c \<in> glob_magic then CHR ''['' # c # CHR '']'' # escape_brackets cs
      else c # escape_brackets cs)"

definition escape :: "string \<Rightarrow> bool \<Rightarrow> string" where
  "escape str windowsPathsNoEscape =
     (if windowsPathsNoEscape then escape_brackets str else escape_backslash str)"

text \<open>
  \<open>unescape\<close> scans from the left, as a global regular-expression replace does. In the
  default mode \<open>/\\([^/])/g\<close> drops a backslash that stands before any character but a
  slash; with \<open>windowsPathsNoEscape\<close>, \<open>/\[([^\/\\[\]{}])\]/g\<close> unwraps \<open>[x]\<close> when
  \<open>x\<close> is none of slash, backslash, brackets and braces.
\<close>

fun unescape_backslash :: "string \<Rightarrow> string" where
  "unescape_backslash (c # d # cs) =
     (if c = bslash \<and> d \<noteq> CHR ''/'' then d # unescape_backslash cs
      else c # unescape_backslash (d # cs))"
| "unescape_backslash cs = cs"

definition unwrap_excluded :: "char set" where
  "unwrap_excluded = {CHR ''/'', bslash, CHR ''['', CHR '']'', CHR ''{'', CHR ''}''}"

fun unescape_brackets :: "string \<Rightarrow> string" where
  "unescape_brackets (c # d # e # cs) =
     (if c = CHR ''['' \<and> d \<notin> unwrap_excluded \<and> e = CHR '']'' then d # unescape_brackets cs
      else c # unescape_brackets (d # e # cs))"
| "unescape_brackets cs = cs"

definition unescape :: "string \<Rightarrow> bool \<Rightarrow> string" where
  "unescape str windowsPathsNoEscape =
     (if windowsPathsNoEscape then unescape_brackets str else unescape_backslash str)"

section \<open>matchOne\<close>

datatype error = TypeError string | Error string

text \<open>
  A parsed pattern part (\<open>ParseReturn\<close>): a string, a compiled regular expression (its
  \<open>test\<close> function), the \<open>GLOBSTAR\<close> symbol, or \<open>false\<close>.
\<close>

datatype ParseReturn = PString string | PRegExp "string \<Rightarrow> bool" | GLOBSTAR | PFalse

text \<open>
  The test both globstar loops make on a file segment: it is \<open>.\<close> or \<open>..\<close>, or the
  \<open>dot\<close> option is off and its first character is a dot.
\<close>

definition dotSegment :: "bool \<Rightarrow> string \<Rightarrow> bool" where
  "dotSegment dot f = (f = ''.'' \<or> f = ''..'' \<or> (\<not> dot \<and> take 1 f = ''.''))"

text \<open>The loop of the branch \<open>** at the end\<close>: \<open>for (; fi < fl; fi++)\<close>.\<close>

function swallowRest :: "bool \<Rightarrow> string list \<Rightarrow> nat \<Rightarrow> bool" where
  "swallowRest dot file fi =
     (if fi < length file then
        (if dotSegment dot (file ! fi) then False else swallowRest dot file (fi + 1))
      else True)"
  by pat_completeness auto
termination
  by (relation "measure (\<lambda>(dot, file, fi). length file - fi)") auto

text \<open>
  \<open>matchOne\<close> enters the lock-step loop at \<open>fi = 0\<close>, \<open>pi = 0\<close>; \<open>matchOne_for\<close> is the
  loop at the indices \<open>fi\<close>, \<open>pi\<close> together with the checks after it, and
  \<open>matchOne_while\<close> is the inner loop of a non-final globstar at \<open>fr\<close>, with \<open>pr = pi + 1\<close>.
  The recursive call slices both arrays, as the source does. The first argument is
  \<open>this.options.dot\<close>, all that \<open>matchOne\<close> reads of the instance.
\<close>

function matchOne :: "bool \<Rightarrow> string list \<Rightarrow> ParseReturn list \<Rightarrow> bool \<Rightarrow> error + bool"
  and matchOne_for :: "bool \<Rightarrow> string list \<Rightarrow> ParseReturn list \<Rightarrow> bool \<Rightarrow> nat \<Rightarrow> nat \<Rightarrow> error + bool"
  and matchOne_while :: "bool \<Rightarrow> string list \<Rightarrow> ParseReturn list \<Rightarrow> bool \<Rightarrow> nat \<Rightarrow> nat \<Rightarrow> error + bool"
where
  "matchOne dot file pattern partial = matchOne_for dot file pattern partial 0 0"
| "matchOne_for dot file pattern partial fi pi =
     (if fi < length file \<and> pi < length pattern then
        (case pattern ! pi of
           PFalse \<Rightarrow> Inr False
         | GLOBSTAR \<Rightarrow>
             (if pi + 1 = length pattern then Inr (swallowRest dot file fi)
              else matchOne_while dot file pattern partial (pi + 1) fi)
         | PString p \<Rightarrow>
             (if file ! fi = p then matchOne_for dot file pattern partial (fi + 1) (pi + 1)
              else Inr False)
         | PRegExp re \<Rightarrow>
             (if re (file ! fi) then matchOne_for dot file pattern partial (fi + 1) (pi + 1)
              else Inr False))
      else if fi = length file \<and> pi = length pattern then Inr True
      else if fi = length file then Inr partial
      else if pi = length pattern then Inr (fi + 1 = length file \<and> file ! fi = [])
      else Inl (Error ''wtf?''))"
| "matchOne_while dot file pattern partial pr fr =
     (if fr < length file then
        (case matchOne dot (drop fr file) (drop pr pattern) partial of
           Inl e \<Rightarrow> Inl e
         | Inr True \<Rightarrow> Inr True
         | Inr False \<Rightarrow>
             (if dotSegment dot (file ! fr) then Inr (partial \<and> fr = length file)
              else matchOne_while dot file pattern partial pr (fr + 1)))
      else Inr (partial \<and> fr = length file))"
  by pat_completeness auto
termination
  by (relation "measures
       [\<lambda>x. case x of
               Inl (dot, file, pattern, partial) \<Rightarrow> length pattern
             | Inr (Inl (dot, file, pattern, partial, fi, pi)) \<Rightarrow> length pattern - pi
             | Inr (Inr (dot, file, pattern, partial, pr, fr)) \<Rightarrow> length pattern - pr,
        \<lambda>x. case x of
               Inl (dot, file, pattern, partial) \<Rightarrow> 1
             | Inr (Inl (dot, file, pattern, partial, fi, pi)) \<Rightarrow> 0
             | Inr (Inr (dot, file, pattern, partial, pr, fr)) \<Rightarrow> 2,
        \<lambda>x. case x of
               Inl (dot, file, pattern, partial) \<Rightarrow> 0
             | Inr (Inl (dot, file, pattern, partial, fi, pi)) \<Rightarrow> 0
             | Inr (Inr (dot, file, pattern, partial, pr, fr)) \<Rightarrow> length file - fr]")
     auto

declare swallowRest.simps [simp del]
declare matchOne.simps [simp del] matchOne_for.simps [simp del] matchOne_while.simps [simp del]

section \<open>Options and the external libraries\<close>

text \<open>
  A JavaScript number as far as the options need it: an integer, \<open>NaN\<close> or an infinity.
\<close>

datatype number = Finite int | NaN | PosInfinity | NegInfinity

text \<open>
  \<open>MinimatchOptions\<close>. A flag that the code only tests for truthiness is a \<^typ>\<open>bool\<close>
  (\<open>undefined\<close> is \<open>False\<close>); an option whose absence the code tells from \<open>false\<close> or
  gives a default is an \<^typ>\<open>'a option\<close>.
\<close>

record MinimatchOptions =
  dot :: bool
  nocase :: bool
  noglobstar :: bool
  nobrace :: bool
  noext :: bool
  nonegate :: bool
  nocomment :: bool
  matchBase :: bool
  nonull :: bool
  flipNegate :: bool
  windowsPathsNoEscape :: bool
  allowWindowsEscape :: "bool option"
  partial :: bool
  preserveMultipleSlashes :: bool
  optimizationLevel :: "int option"
  platform :: "string option"
  windowsNoMagicRoot :: "bool option"
  magicalBraces :: bool
  failglob :: bool
  maxLength :: "number option"

definition defaultOptions :: MinimatchOptions where
  "defaultOptions =
     \<lparr>dot = False, nocase = False, noglobstar = False, nobrace = False, noext = False,
      nonegate = False, nocomment = False, matchBase = False, nonull = False,
      flipNegate = False, windowsPathsNoEscape = False, allowWindowsEscape = None,
      partial = False, preserveMultipleSlashes = False, optimizationLevel = None,
      platform = None, windowsNoMagicRoot = None, magicalBraces = False, failglob = False,
      maxLength = None\<rparr>"

record PicomatchOptions =
  pico_dot :: bool
  pico_nocase :: bool
  pico_nonegate :: bool
  pico_noglobstar :: bool
  pico_nobrace :: bool
  pico_noextglob :: bool
  pico_basename :: bool
  pico_posix :: bool
  pico_maxLength :: "number option"

definition translateOptions :: "MinimatchOptions \<Rightarrow> PicomatchOptions" where
  "translateOptions opts =
     \<lparr>pico_dot = dot opts, pico_nocase = nocase opts, pico_nonegate = nonegate opts,
      pico_noglobstar = noglobstar opts, pico_nobrace = nobrace opts,
      pico_noextglob = noext opts, pico_basename = matchBase opts, pico_posix = True,
      pico_maxLength = maxLength opts\<rparr>"

text \<open>
  What the module takes from outside: the platform of the process and the two
  libraries. \<open>picomatch\<close> compiles a glob to a matcher and \<open>picomatch_makeRe\<close> to a
  regular expression (its \<open>test\<close> function); \<open>braces\<close> is the general brace expander
  called with \<open>expand: true, rangeLimit: 1000\<close>. \<open>None\<close> stands for a call that throws
  (for \<open>picomatch_makeRe\<close> also for a falsy result: the code treats both alike). A
  compiled matcher is a total function of the string it tests. \<open>toLowerCase\<close> is
  \<open>String.prototype.toLowerCase\<close> of the runtime, which folds every cased letter; the
  model fixes no table for it.
\<close>

record Env =
  defaultPlatform :: string
  toLowerCase :: "string \<Rightarrow> string"
  picomatch :: "PicomatchOptions \<Rightarrow> string \<Rightarrow> (string \<Rightarrow> bool) option"
  picomatch_makeRe :: "PicomatchOptions \<Rightarrow> string \<Rightarrow> (string \<Rightarrow> bool) option"
  braces :: "string \<Rightarrow> string list option"

section \<open>JavaScript maps and sets\<close>

text \<open>
  A \<open>Map\<close> keeps its entries in insertion order: an association list with the oldest
  entry first. \<open>get\<close> is \<^const>\<open>map_of\<close>, \<open>delete\<close> is \<^const>\<open>AList.delete\<close> and \<open>set\<close> is
  \<^const>\<open>AList.update\<close>, which overwrites an existing key in place and appends a new
  one. \<open>deleteFirstKey\<close> is \<open>keys().next().value\<close> followed by \<open>delete\<close>.
\<close>

definition deleteFirstKey :: "('k \<times> 'v) list \<Rightarrow> ('k \<times> 'v) list" where
  "deleteFirstKey m = (case m of [] \<Rightarrow> [] | (k, v) # rest \<Rightarrow> AList.delete k m)"

text \<open>\<open>[...new Set(xs)]\<close>: the first occurrence of every element, in order.\<close>

definition uniq :: "'a list \<Rightarrow> 'a list" where
  "uniq xs = rev (remdups (rev xs))"

section \<open>Brace expansion\<close>

definition MAX_EXPANSION_LENGTH :: nat where
  "MAX_EXPANSION_LENGTH = 10000"

definition BRACE_CACHE_SIZE :: nat where
  "BRACE_CACHE_SIZE = 200"

type_synonym BraceCache = "(string \<times> string list) list"

definition addToBraceCache :: "BraceCache \<Rightarrow> string \<Rightarrow> string list \<Rightarrow> BraceCache" where
  "addToBraceCache braceCache pattern result =
     AList.update pattern result
       (if length braceCache \<ge> BRACE_CACHE_SIZE then deleteFirstKey braceCache
        else braceCache)"

text \<open>
  \<open>SIMPLE_BRACE_RE = /^([^{]*)\{([^{}]+)\}([^{]*)$/\<close> can match in one way only: the
  prefix ends at the first \<open>{\<close>, the content runs to the next brace, which must be a
  \<open>}\<close>, and the suffix is the rest, free of \<open>{\<close>.
\<close>

definition trySimpleBraceExpand :: "string \<Rightarrow> string list option" where
  "trySimpleBraceExpand pattern =
     (let prefix = takeWhile (\<lambda>c. c \<noteq> CHR ''{'') pattern in
      case dropWhile (\<lambda>c. c \<noteq> CHR ''{'') pattern of
        [] \<Rightarrow> None
      | opening # rest \<Rightarrow>
          (let content = takeWhile (\<lambda>c. c \<noteq> CHR ''{'' \<and> c \<noteq> CHR ''}'') rest in
           case dropWhile (\<lambda>c. c \<noteq> CHR ''{'' \<and> c \<noteq> CHR ''}'') rest of
             [] \<Rightarrow> None
           | closing # suffix \<Rightarrow>
               if closing \<noteq> CHR ''}'' \<or> content = [] \<or> CHR ''{'' \<in> set suffix then None
               else if str_includes content ''..'' then None
               else Some (map (\<lambda>item. prefix @ item @ suffix) (str_split CHR '','' content))))"

text \<open>
  The quick check of \<open>braceExpand\<close>: the pattern has a \<open>{\<close>, and a \<open>}\<close> at or after the
  first one.
\<close>

definition hasBracePair :: "string \<Rightarrow> bool" where
  "hasBracePair pattern = (CHR ''}'' \<in> set (dropWhile (\<lambda>c. c \<noteq> CHR ''{'') pattern))"

text \<open>
  \<open>braceExpand\<close> reads and writes the module's brace cache, so it takes the cache and
  returns it. A cached array is truthy whatever it holds, so a hit returns it.
\<close>

definition braceExpand ::
  "Env \<Rightarrow> BraceCache \<Rightarrow> string \<Rightarrow> MinimatchOptions \<Rightarrow> string list \<times> BraceCache" where
  "braceExpand env braceCache pattern options =
     (if nobrace options then ([pattern], braceCache)
      else if \<not> hasBracePair pattern then ([pattern], braceCache)
      else case map_of braceCache pattern of
        Some cached \<Rightarrow> (cached, braceCache)
      | None \<Rightarrow>
          (case trySimpleBraceExpand pattern of
             Some fastResult \<Rightarrow> (fastResult, addToBraceCache braceCache pattern fastResult)
           | None \<Rightarrow>
               (case braces env pattern of
                  None \<Rightarrow> ([pattern], braceCache)
                | Some expanded \<Rightarrow>
                    if length expanded > MAX_EXPANSION_LENGTH then ([pattern], braceCache)
                    else let unique = uniq expanded;
                             result = (if length unique > 0 then unique else [pattern])
                         in (result, addToBraceCache braceCache pattern result))))"

section \<open>Path utilities\<close>

definition isWindows :: "string \<Rightarrow> bool" where
  "isWindows plat = (plat = ''win32'')"

definition normalizePath :: "string \<Rightarrow> bool \<Rightarrow> string" where
  "normalizePath path noEscape = (if noEscape then backslashesToSlashes path else path)"

definition normalizePattern :: "string \<Rightarrow> bool \<Rightarrow> string" where
  "normalizePattern pattern noEscape =
     (if noEscape then backslashesToSlashes pattern else pattern)"

text \<open>\<open>path.split(/\/+/)\<close>: split at every maximal run of slashes.\<close>

function splitSlashes :: "string \<Rightarrow> string list" where
  "splitSlashes [] = [[]]"
| "splitSlashes (c # cs) =
     (if c = CHR ''/'' then [] # splitSlashes (dropWhile (\<lambda>d. d = CHR ''/'') cs)
      else (case splitSlashes cs of [] \<Rightarrow> [[c]] | p # ps \<Rightarrow> (c # p) # ps))"
  by pat_completeness auto
termination
  by (relation "measure length") (auto simp: le_imp_less_Suc length_dropWhile_le)

text \<open>\<open>parts.filter((p, i) => i === 0 || p !== '')\<close>.\<close>

definition keepFirstAndNonEmpty :: "string list \<Rightarrow> string list" where
  "keepFirstAndNonEmpty parts =
     (case parts of [] \<Rightarrow> [] | p # ps \<Rightarrow> p # filter (\<lambda>q. q \<noteq> []) ps)"

text \<open>\<open>/^\/\/[^/]+/.test(path)\<close>: two slashes and then a character that is no slash.\<close>

definition isUNC :: "string \<Rightarrow> bool" where
  "isUNC path = (case path of
       a # b # c # rest \<Rightarrow> a = CHR ''/'' \<and> b = CHR ''/'' \<and> c \<noteq> CHR ''/''
     | _ \<Rightarrow> False)"

definition slashSplit :: "string \<Rightarrow> bool \<Rightarrow> bool \<Rightarrow> string list" where
  "slashSplit path preserve isWindowsPlatform =
     (if path = [] then [[]]
      else if preserve then str_split CHR ''/'' path
      else if isWindowsPlatform \<and> isUNC path then [] # keepFirstAndNonEmpty (splitSlashes path)
      else if startsWith path ''/'' then [] # filter (\<lambda>p. p \<noteq> []) (splitSlashes path)
      else filter (\<lambda>p. p \<noteq> []) (splitSlashes path))"

section \<open>The Minimatch class\<close>

definition MAX_PATTERN_LENGTH :: nat where
  "MAX_PATTERN_LENGTH = 65536"

text \<open>
  The fields of an instance. \<open>regexp\<close>, the memo of \<open>makeRe\<close>, and the debug function
  are left out: neither the constructor nor \<open>match\<close> reads them.
\<close>

record Minimatch =
  mm_pattern :: string
  mm_options :: MinimatchOptions
  mm_set :: "ParseReturn list list"
  mm_negate :: bool
  mm_comment :: bool
  mm_empty :: bool
  mm_preserveMultipleSlashes :: bool
  mm_partial :: bool
  mm_globSet :: "string list"
  mm_globParts :: "string list list"
  mm_nocase :: bool
  mm_isWindows :: bool
  mm_platform :: string
  mm_windowsNoMagicRoot :: bool
  mm_windowsPathsNoEscape :: bool
  mm_nonegate :: bool
  mm_picoOpts :: PicomatchOptions
  mm_matchers :: "(string \<Rightarrow> bool) list"
  mm_hasNegatedCharClassCached :: bool
  mm_requiresTrailingSlashCached :: bool
  mm_patternBasename :: string

text \<open>\<open>parseNegate\<close>: every leading \<open>!\<close> toggles \<open>negate\<close> and is cut off the pattern.\<close>

definition parseNegate :: "Minimatch \<Rightarrow> Minimatch" where
  "parseNegate this =
     (if mm_nonegate this then this
      else let negateOffset = length (takeWhile (\<lambda>c. c = CHR ''!'') (mm_pattern this))
           in this\<lparr>mm_pattern := drop negateOffset (mm_pattern this),
                   mm_negate := odd negateOffset\<rparr>)"

text \<open>
  The reducer of \<open>preprocess\<close>. \<open>prev\<close> is \<open>set[set.length - 1]\<close>, \<open>undefined\<close> on the empty
  array; \<open>prev && ...\<close> asks for a defined, non-empty string.
\<close>

definition optimizeStep :: "string list \<Rightarrow> string \<Rightarrow> string list" where
  "optimizeStep acc part =
     (let prev = (if acc = [] then None else Some (last acc)) in
      if part = ''**'' \<and> prev = Some ''**'' then acc
      else if part = ''..'' \<and> prev \<noteq> None \<and> prev \<noteq> Some [] \<and> prev \<noteq> Some ''..''
              \<and> prev \<noteq> Some ''.'' \<and> prev \<noteq> Some ''**'' then butlast acc
      else acc @ [part])"

definition preprocess :: "MinimatchOptions \<Rightarrow> string list list \<Rightarrow> string list list" where
  "preprocess options globParts =
     (let globParts1 =
            (if noglobstar options
             then map (map (\<lambda>part. if part = ''**'' then ''*'' else part)) globParts
             else globParts);
          level = (case optimizationLevel options of None \<Rightarrow> 1 | Some l \<Rightarrow> l)
      in if level \<ge> 1
         then map (\<lambda>parts. if parts = [] then [[]] else parts)
                (map (\<lambda>parts. foldl optimizeStep [] parts) globParts1)
         else globParts1)"

definition parse :: "Env \<Rightarrow> PicomatchOptions \<Rightarrow> string \<Rightarrow> ParseReturn" where
  "parse env picoOpts pattern =
     (if pattern = ''**'' then GLOBSTAR
      else if pattern = [] then PString []
      else case picomatch_makeRe env picoOpts pattern of
             Some regex \<Rightarrow> PRegExp regex
           | None \<Rightarrow> PFalse)"

definition isPFalse :: "ParseReturn \<Rightarrow> bool" where
  "isPFalse p = (case p of PFalse \<Rightarrow> True | _ \<Rightarrow> False)"

text \<open>\<open>pattern.replace(/\[\\b\]/g, '[b]')\<close>.\<close>

fun preprocessPattern :: "string \<Rightarrow> string" where
  "preprocessPattern (a # b # c # d # rest) =
     (if a = CHR ''['' \<and> b = bslash \<and> c = CHR ''b'' \<and> d = CHR '']''
      then ''[b]'' @ preprocessPattern rest
      else a # preprocessPattern (b # c # d # rest))"
| "preprocessPattern cs = cs"

text \<open>
  \<open>/\[\^[^\]]+\]/.test(pattern)\<close>: somewhere \<open>[^\<close>, then a character that is not \<open>]\<close>,
  then a \<open>]\<close> further on.
\<close>

fun hasNegatedCharClass :: "string \<Rightarrow> bool" where
  "hasNegatedCharClass (a # b # c # rest) =
     ((a = CHR ''['' \<and> b = CHR ''^'' \<and> c \<noteq> CHR '']'' \<and> CHR '']'' \<in> set rest)
      \<or> hasNegatedCharClass (b # c # rest))"
| "hasNegatedCharClass cs = False"

text \<open>
  \<open>/\*\*\/\.[^/]+\/\*\*/.test(pattern)\<close>: somewhere \<open>**/.\<close>, then a non-empty run of
  characters other than the slash, then \<open>/**\<close>.
\<close>

fun requiresTrailingSlash :: "string \<Rightarrow> bool" where
  "requiresTrailingSlash [] = False"
| "requiresTrailingSlash (c # cs) =
     ((startsWith (c # cs) ''**/.''
        \<and> takeWhile (\<lambda>d. d \<noteq> CHR ''/'') (drop 4 (c # cs)) \<noteq> []
        \<and> startsWith (dropWhile (\<lambda>d. d \<noteq> CHR ''/'') (drop 4 (c # cs))) ''/**'')
      \<or> requiresTrailingSlash cs)"

text \<open>
  \<open>make\<close>. A matcher that \<open>picomatch\<close> fails to build never matches; a glob part list
  that holds \<open>false\<close> is dropped from \<open>set\<close>.
\<close>

definition Minimatch_make :: "Env \<Rightarrow> BraceCache \<Rightarrow> Minimatch \<Rightarrow> Minimatch \<times> BraceCache" where
  "Minimatch_make env braceCache this =
     (if \<not> nocomment (mm_options this) \<and> take 1 (mm_pattern this) = ''#''
      then (this\<lparr>mm_comment := True\<rparr>, braceCache)
      else if mm_pattern this = [] then (this\<lparr>mm_empty := True\<rparr>, braceCache)
      else
        let this1 = parseNegate this;
            (expanded, braceCache1) =
               braceExpand env braceCache (mm_pattern this1) (mm_options this1);
            globSet = uniq expanded;
            rawGlobParts =
               map (\<lambda>s. slashSplit s (mm_preserveMultipleSlashes this1) (mm_isWindows this1))
                 globSet;
            globParts = preprocess (mm_options this1) rawGlobParts;
            matchers =
               map (\<lambda>p. case picomatch env (mm_picoOpts this1) (preprocessPattern p) of
                          Some matcher \<Rightarrow> matcher
                        | None \<Rightarrow> (\<lambda>str. False))
                 globSet;
            parsed =
               filter (\<lambda>s. \<not> list_ex isPFalse s)
                 (map (map (parse env (mm_picoOpts this1))) globParts)
        in (this1\<lparr>mm_globSet := globSet, mm_globParts := globParts,
                   mm_matchers := matchers, mm_set := parsed\<rparr>,
            braceCache1))"

text \<open>
  The constructor, up to the call of \<open>make\<close>: the fields as the assignments leave them.
  \<open>options.platform || getPlatform()\<close> takes the default for an absent or empty name.
\<close>

definition Minimatch_init :: "Env \<Rightarrow> string \<Rightarrow> MinimatchOptions \<Rightarrow> Minimatch" where
  "Minimatch_init env pattern options =
     (let plat = (case platform options of
                    None \<Rightarrow> defaultPlatform env
                  | Some p \<Rightarrow> if p = [] then defaultPlatform env else p);
          noEscape = (windowsPathsNoEscape options \<or> allowWindowsEscape options = Some False)
      in \<lparr>mm_pattern = (if noEscape then normalizePattern pattern True else pattern),
          mm_options = options,
          mm_set = [],
          mm_negate = False,
          mm_comment = False,
          mm_empty = False,
          mm_preserveMultipleSlashes = preserveMultipleSlashes options,
          mm_partial = partial options,
          mm_globSet = [],
          mm_globParts = [],
          mm_nocase = nocase options,
          mm_isWindows = isWindows plat,
          mm_platform = plat,
          mm_windowsNoMagicRoot =
            (case windowsNoMagicRoot options of
               Some b \<Rightarrow> b
             | None \<Rightarrow> isWindows plat \<and> nocase options),
          mm_windowsPathsNoEscape = noEscape,
          mm_nonegate = nonegate options,
          mm_picoOpts = translateOptions options,
          mm_matchers = [],
          mm_hasNegatedCharClassCached = False,
          mm_requiresTrailingSlashCached = False,
          mm_patternBasename = []\<rparr>)"

text \<open>
  The constructor. The type check of \<open>pattern\<close> is the type of the argument here; the
  length check is the only other \<open>throw\<close>. After \<open>make\<close> the three cached values are
  computed from the pattern that \<open>make\<close> left.
\<close>

definition Minimatch_new ::
  "Env \<Rightarrow> BraceCache \<Rightarrow> string \<Rightarrow> MinimatchOptions \<Rightarrow> (error + Minimatch) \<times> BraceCache" where
  "Minimatch_new env braceCache pattern options =
     (if length pattern > MAX_PATTERN_LENGTH
      then (Inl (TypeError ''pattern is too long''), braceCache)
      else
        let (this1, braceCache1) =
              Minimatch_make env braceCache (Minimatch_init env pattern options)
        in (Inr (this1\<lparr>mm_hasNegatedCharClassCached := hasNegatedCharClass (mm_pattern this1),
                         mm_requiresTrailingSlashCached := requiresTrailingSlash (mm_pattern this1),
                         mm_patternBasename := afterLastSlash (mm_pattern this1)\<rparr>),
            braceCache1))"

text \<open>
  The loop of \<open>match\<close> over \<open>patternParts\<close>: it finds \<open>**\<close>, a part that begins with a
  dot, and \<open>**\<close> again, where the dot part is the last part of the path.
\<close>

function dotDirLoop :: "string list \<Rightarrow> string \<Rightarrow> nat \<Rightarrow> bool" where
  "dotDirLoop patternParts lastPathPart i =
     (if i + 1 < length patternParts then
        (if patternParts ! i = ''**'' \<and> startsWith (patternParts ! (i + 1)) ''.''
            \<and> i + 2 < length patternParts \<and> patternParts ! (i + 2) = ''**''
            \<and> lastPathPart = patternParts ! (i + 1)
         then True
         else dotDirLoop patternParts lastPathPart (i + 1))
      else False)"
  by pat_completeness auto
termination
  by (relation "measure (\<lambda>(patternParts, lastPathPart, i). length patternParts - i)") auto

declare dotDirLoop.simps [simp del]

text \<open>
  \<open>match(path, partial = this.partial)\<close>; \<open>None\<close> is the call without the second
  argument.
\<close>

definition Minimatch_match :: "Minimatch \<Rightarrow> string \<Rightarrow> bool option \<Rightarrow> bool" where
  "Minimatch_match this path0 partialArg =
     (let isPartial = (case partialArg of None \<Rightarrow> mm_partial this | Some b \<Rightarrow> b) in
      if mm_comment this then False
      else if mm_empty this then path0 = []
      else if path0 = ''/'' \<and> isPartial then True
      else
        let path = (if (mm_windowsPathsNoEscape this \<or> mm_isWindows this) \<and> bslash \<in> set path0
                    then normalizePath path0 True else path0);
            basename = afterLastSlash path
        in
        if (basename = ''.'' \<or> basename = ''..'')
           \<and> mm_patternBasename this \<noteq> basename
           \<and> mm_patternBasename this \<noteq> ''.*'' @ drop 1 basename
           \<and> \<not> str_includes (mm_pattern this) basename
        then (if mm_negate this then True else False)
        else
          let pathWithoutTrailingSlash =
                (if endsWith path ''/'' \<and> length path > 1 then butlast path else path);
              matches0 =
                (if matchBase (mm_options this) \<and> CHR ''/'' \<notin> set path
                 then list_ex (\<lambda>matcher. matcher path) (mm_matchers this)
                 else if matchBase (mm_options this)
                 then list_ex (\<lambda>matcher. matcher path \<or> matcher basename) (mm_matchers this)
                 else list_ex (\<lambda>matcher. matcher path \<or> matcher pathWithoutTrailingSlash)
                        (mm_matchers this));
              matches1 =
                (if matches0 \<and> \<not> dot (mm_options this) \<and> mm_hasNegatedCharClassCached this
                    \<and> startsWith basename ''.''
                 then False else matches0);
              matches2 =
                (if matches1 \<and> mm_requiresTrailingSlashCached this \<and> \<not> endsWith path ''/''
                    \<and> dotDirLoop (str_split CHR ''/'' (mm_pattern this))
                         (last (str_split CHR ''/'' path)) 0
                 then False else matches1)
          in if flipNegate (mm_options this) then matches2
             else if mm_negate this then \<not> matches2 else matches2)"

section \<open>The cache of compiled patterns\<close>

definition CACHE_SIZE :: nat where
  "CACHE_SIZE = 500"

text \<open>The state of the modules: the pattern cache and the brace cache.\<close>

record Caches =
  patternCache :: "(string \<times> Minimatch) list"
  braceCache :: BraceCache

definition emptyCaches :: Caches where
  "emptyCaches = \<lparr>patternCache = [], braceCache = []\<rparr>"

definition flag :: "bool \<Rightarrow> string" where
  "flag b = (if b then ''1'' else ''0'')"

definition getCacheKey :: "string \<Rightarrow> MinimatchOptions \<Rightarrow> string" where
  "getCacheKey pattern options =
     pattern @ [nul] @ flag (nocase options) @ flag (dot options) @ flag (noglobstar options)
       @ flag (nobrace options) @ flag (noext options) @ flag (nonegate options)
       @ flag (nocomment options) @ flag (matchBase options) @ flag (flipNegate options)
       @ flag (windowsPathsNoEscape options) @ flag (preserveMultipleSlashes options)
       @ flag (partial options)
       @ (case platform options of None \<Rightarrow> [] | Some p \<Rightarrow> p)"

text \<open>
  \<open>getOrCreateMatcher\<close>. A cached instance is an object, hence truthy: a hit deletes
  the key and sets it again. On a miss the constructor runs first; when it throws, the
  pattern cache is as before.
\<close>

definition getOrCreateMatcher ::
  "Env \<Rightarrow> Caches \<Rightarrow> string \<Rightarrow> MinimatchOptions \<Rightarrow> (error + Minimatch) \<times> Caches" where
  "getOrCreateMatcher env caches pattern options =
     (let key = getCacheKey pattern options in
      case map_of (patternCache caches) key of
        Some mm \<Rightarrow>
          (Inr mm,
           caches\<lparr>patternCache := AList.update key mm (AList.delete key (patternCache caches))\<rparr>)
      | None \<Rightarrow>
          (case Minimatch_new env (braceCache caches) pattern options of
             (Inl e, bc) \<Rightarrow> (Inl e, caches\<lparr>braceCache := bc\<rparr>)
           | (Inr mm, bc) \<Rightarrow>
               (Inr mm,
                caches\<lparr>patternCache :=
                          AList.update key mm
                            (if length (patternCache caches) \<ge> CACHE_SIZE
                             then deleteFirstKey (patternCache caches)
                             else patternCache caches),
                        braceCache := bc\<rparr>)))"

definition getCacheSize :: "Caches \<Rightarrow> nat" where
  "getCacheSize caches = length (patternCache caches)"

definition clearCache :: "Caches \<Rightarrow> Caches" where
  "clearCache caches = caches\<lparr>patternCache := []\<rparr>"

text \<open>A run of calls, each given as its pattern and options; a call that throws is skipped.\<close>

fun compileAll :: "Env \<Rightarrow> Caches \<Rightarrow> (string \<times> MinimatchOptions) list \<Rightarrow> Caches" where
  "compileAll env caches [] = caches"
| "compileAll env caches ((pattern, options) # calls) =
     compileAll env (snd (getOrCreateMatcher env caches pattern options)) calls"

section \<open>Fast paths\<close>

text \<open>\<open>STAR_RE = /^\*+$/\<close>.\<close>

definition isStars :: "string \<Rightarrow> bool" where
  "isStars s = (s \<noteq> [] \<and> list_all (\<lambda>c. c = CHR ''*'') s)"

text \<open>
  The extension group \<open>(\.[^+@!?\*\[\(]+)\<close>: a dot, then at least one character outside
  the class.
\<close>

definition extExcluded :: "char set" where
  "extExcluded = {CHR ''+'', CHR ''@'', CHR ''!'', CHR ''?'', CHR ''*'', CHR ''['', CHR ''(''}"

definition isDotExt :: "string \<Rightarrow> bool" where
  "isDotExt s = (case s of
       [] \<Rightarrow> False
     | c # e \<Rightarrow> c = CHR ''.'' \<and> e \<noteq> [] \<and> list_all (\<lambda>d. d \<notin> extExcluded) e)"

text \<open>\<open>STAR_DOT_EXT_RE = /^\*+(\.[^+@!?\*\[\(]+)$/\<close>; the result is the group.\<close>

definition matchStarDotExt :: "string \<Rightarrow> string option" where
  "matchStarDotExt s =
     (let stars = takeWhile (\<lambda>c. c = CHR ''*'') s; rest = dropWhile (\<lambda>c. c = CHR ''*'') s
      in if stars \<noteq> [] \<and> isDotExt rest then Some rest else None)"

text \<open>\<open>STAR_DOT_STAR_RE = /^\*+\.\*+$/\<close>.\<close>

definition matchStarDotStar :: "string \<Rightarrow> bool" where
  "matchStarDotStar s =
     (takeWhile (\<lambda>c. c = CHR ''*'') s \<noteq> []
      \<and> (case dropWhile (\<lambda>c. c = CHR ''*'') s of
            [] \<Rightarrow> False
          | c # r \<Rightarrow> c = CHR ''.'' \<and> isStars r))"

text \<open>\<open>DOT_STAR_RE = /^\.\*+$/\<close>.\<close>

definition matchDotStar :: "string \<Rightarrow> bool" where
  "matchDotStar s = (case s of [] \<Rightarrow> False | c # r \<Rightarrow> c = CHR ''.'' \<and> isStars r)"

text \<open>
  \<open>QMARKS_RE = /^(\?+)(\.[^+@!?\*\[\(]+)?$/\<close>; the result is the two groups, the second
  one empty when it did not take part.
\<close>

definition matchQmarks :: "string \<Rightarrow> (string \<times> string) option" where
  "matchQmarks s =
     (let qmarks = takeWhile (\<lambda>c. c = CHR ''?'') s; rest = dropWhile (\<lambda>c. c = CHR ''?'') s
      in if qmarks \<noteq> [] \<and> (rest = [] \<or> isDotExt rest) then Some (qmarks, rest) else None)"

text \<open>\<open>/[@!?+*]\(/.test(pattern)\<close>.\<close>

fun hasExtglob :: "string \<Rightarrow> bool" where
  "hasExtglob (a # b # rest) =
     ((a \<in> {CHR ''@'', CHR ''!'', CHR ''?'', CHR ''+'', CHR ''*''} \<and> b = CHR ''('')
      \<or> hasExtglob (b # rest))"
| "hasExtglob cs = False"

text \<open>
  \<open>tryFastPath\<close>. The environment is there for \<open>toLowerCase\<close>, which the \<open>nocase\<close>
  branches call on the path and on the extension.
\<close>

definition tryFastPath :: "Env \<Rightarrow> string \<Rightarrow> string \<Rightarrow> MinimatchOptions \<Rightarrow> bool option" where
  "tryFastPath env path pattern options =
     (if CHR ''/'' \<in> set path then None
      else if CHR ''/'' \<in> set pattern then None
      else if \<not> nonegate options \<and> startsWith pattern ''!'' then None
      else if \<not> nobrace options \<and> CHR ''{'' \<in> set pattern then None
      else if \<not> noext options \<and> hasExtglob pattern then None
      else if CHR ''['' \<in> set pattern then None
      else if isStars pattern then
        Some (if length path = 0 then False
              else if dot options then path \<noteq> ''.'' \<and> path \<noteq> ''..''
              else \<not> startsWith path ''.'')
      else case matchStarDotExt pattern of
        Some ext \<Rightarrow>
          Some (if length path = 0 then False
                else if nocase options then
                  (if dot options then endsWith (toLowerCase env path) (toLowerCase env ext)
                   else \<not> startsWith path ''.'' \<and> endsWith (toLowerCase env path) (toLowerCase env ext))
                else if dot options then endsWith path ext
                else \<not> startsWith path ''.'' \<and> endsWith path ext)
      | None \<Rightarrow>
          if matchStarDotStar pattern then
            Some (if length path = 0 then False
                  else if dot options then path \<noteq> ''.'' \<and> path \<noteq> ''..'' \<and> CHR ''.'' \<in> set path
                  else \<not> startsWith path ''.'' \<and> CHR ''.'' \<in> set path)
          else if matchDotStar pattern then
            Some (startsWith path ''.'' \<and> path \<noteq> ''.'' \<and> path \<noteq> ''..'')
          else case matchQmarks pattern of
            Some (qmarks, ext) \<Rightarrow>
              Some (if length path \<noteq> length qmarks + length ext then False
                    else if path = ''.'' \<or> path = ''..'' then False
                    else if ext \<noteq> [] \<and> nocase options
                            \<and> \<not> endsWith (toLowerCase env path) (toLowerCase env ext) then False
                    else if ext \<noteq> [] \<and> \<not> nocase options \<and> \<not> endsWith path ext then False
                    else if \<not> dot options \<and> startsWith path ''.'' then False
                    else True)
          | None \<Rightarrow> None)"

definition mightUseFastPath :: "string \<Rightarrow> bool" where
  "mightUseFastPath pattern =
     (CHR ''/'' \<notin> set pattern \<and> CHR ''{'' \<notin> set pattern \<and> CHR ''['' \<notin> set pattern
      \<and> \<not> hasExtglob pattern)"

section \<open>The exported functions\<close>

text \<open>\<open>minimatch(path, pattern, options)\<close>.\<close>

definition minimatch ::
  "Env \<Rightarrow> Caches \<Rightarrow> string \<Rightarrow> string \<Rightarrow> MinimatchOptions \<Rightarrow> (error + bool) \<times> Caches" where
  "minimatch env caches path pattern options =
     (if pattern = [] then (Inr (path = []), caches)
      else if \<not> nocomment options \<and> take 1 pattern = ''#'' then (Inr False, caches)
      else case (if \<not> matchBase options \<and> mightUseFastPath pattern
                 then tryFastPath env path pattern options else None) of
        Some fastResult \<Rightarrow> (Inr fastResult, caches)
      | None \<Rightarrow>
          (case getOrCreateMatcher env caches pattern options of
             (Inl e, caches1) \<Rightarrow> (Inl e, caches1)
           | (Inr mm, caches1) \<Rightarrow> (Inr (Minimatch_match mm path None), caches1)))"

text \<open>\<open>minimatch.match(list, pattern, options)\<close>.\<close>

definition minimatch_match ::
  "Env \<Rightarrow> Caches \<Rightarrow> string list \<Rightarrow> string \<Rightarrow> MinimatchOptions
     \<Rightarrow> (error + string list) \<times> Caches" where
  "minimatch_match env caches list pattern options =
     (case getOrCreateMatcher env caches pattern options of
        (Inl e, caches1) \<Rightarrow> (Inl e, caches1)
      | (Inr mm, caches1) \<Rightarrow>
          (let result = filter (\<lambda>f. Minimatch_match mm f None) list
           in if nonull (mm_options mm) \<and> length result = 0 then (Inr [pattern], caches1)
              else (Inr result, caches1)))"

section \<open>Notions used in the statements\<close>

text \<open>
  A pattern part hits a file segment when it is that string, or a regular expression
  that accepts it: the case in which the loop goes on to the next pair.
\<close>

definition segHit :: "ParseReturn \<Rightarrow> string \<Rightarrow> bool" where
  "segHit p f =
     (case p of PString s \<Rightarrow> f = s | PRegExp re \<Rightarrow> re f | GLOBSTAR \<Rightarrow> False | PFalse \<Rightarrow> False)"

text \<open>The pattern as the constructor stores it before \<open>make\<close> runs.\<close>

definition normalized :: "string \<Rightarrow> MinimatchOptions \<Rightarrow> string" where
  "normalized pattern options =
     (if windowsPathsNoEscape options \<or> allowWindowsEscape options = Some False
      then backslashesToSlashes pattern else pattern)"

text \<open>
  An environment for running the model on concrete inputs: a segment compiler that
  reads its pattern as literal text, and a general brace expander that expands
  nothing. The theorems hold for every environment; this one serves where an instance
  has to be built. Its \<open>toLowerCase\<close> folds the letters \<open>A\<close> to \<open>Z\<close> only; no
  statement below calls it.
\<close>

definition testEnv :: Env where
  "testEnv =
     \<lparr>defaultPlatform = ''linux'',
      toLowerCase =
        map (\<lambda>c. let n = (of_char c :: nat)
                 in if 65 \<le> n \<and> n \<le> 90 then char_of (n + 32) else c),
      picomatch = (\<lambda>opts p. Some (\<lambda>s. s = p)),
      picomatch_makeRe = (\<lambda>opts p. Some (\<lambda>s. s = p)),
      braces = (\<lambda>p. Some [p])\<rparr>"

text \<open>\<open>new Minimatch(pattern, options)\<close> with the brace cache empty, and no instance when it throws.\<close>

definition compiled :: "Env \<Rightarrow> string \<Rightarrow> MinimatchOptions \<Rightarrow> Minimatch option" where
  "compiled env pattern options =
     (case fst (Minimatch_new env [] pattern options) of Inl e \<Rightarrow> None | Inr this \<Rightarrow> Some this)"

text \<open>The last \<open>n\<close> elements of a list.\<close>

definition lastN :: "nat \<Rightarrow> 'a list \<Rightarrow> 'a list" where
  "lastN n xs = drop (length xs - n) xs"

text \<open>
  The keys of the cache after a call that returns, from the keys before: a key that is
  there moves to the end; a new key is appended, after the first key is dropped from a
  full cache.
\<close>

definition touch :: "nat \<Rightarrow> 'a list \<Rightarrow> 'a \<Rightarrow> 'a list" where
  "touch n ks k =
     (if k \<in> set ks then removeAll k ks @ [k]
      else (if length ks \<ge> n then tl ks else ks) @ [k])"

text \<open>The cache keys of a run of calls, in the order of the calls.\<close>

definition callKeys :: "(string \<times> MinimatchOptions) list \<Rightarrow> string list" where
  "callKeys calls = map (\<lambda>(pattern, options). getCacheKey pattern options) calls"

text \<open>
  What \<open>braceExpand\<close> computes for a pattern that passes the quick check, when the
  cache has no entry for it.
\<close>

definition expandUncached :: "Env \<Rightarrow> string \<Rightarrow> string list" where
  "expandUncached env pattern =
     (case trySimpleBraceExpand pattern of
        Some fastResult \<Rightarrow> fastResult
      | None \<Rightarrow>
          (case braces env pattern of
             None \<Rightarrow> [pattern]
           | Some expanded \<Rightarrow>
               if length expanded > MAX_EXPANSION_LENGTH then [pattern]
               else if uniq expanded = [] then [pattern]
               else uniq expanded))"

text \<open>The invariant of the brace cache: every entry holds what its pattern expands to.\<close>

definition braceCacheOk :: "Env \<Rightarrow> BraceCache \<Rightarrow> bool" where
  "braceCacheOk env bc = list_all (\<lambda>(pattern, result). result = expandUncached env pattern) bc"

text \<open>
  The shape that \<open>SIMPLE_BRACE_RE\<close> and the test for \<open>..\<close> accept: a prefix without
  \<open>{\<close>, one group with a non-empty content free of braces and of \<open>..\<close>, and a suffix
  without \<open>{\<close>.
\<close>

definition isSimpleBrace :: "string \<Rightarrow> string \<Rightarrow> string \<Rightarrow> string \<Rightarrow> bool" where
  "isSimpleBrace pattern prefix content suffix =
     (pattern = prefix @ CHR ''{'' # content @ CHR ''}'' # suffix
      \<and> CHR ''{'' \<notin> set prefix \<and> content \<noteq> []
      \<and> CHR ''{'' \<notin> set content \<and> CHR ''}'' \<notin> set content
      \<and> CHR ''{'' \<notin> set suffix \<and> \<not> str_includes content ''..'')"

section \<open>Properties of escape and unescape\<close>

lemma unescape_escape_backslash: "unescape_backslash (escape_backslash s) = s"
proof (induction s)
  case Nil
  then show ?case by simp
next
  case (Cons c cs)
  show ?case
  proof (cases "c \<in> glob_magic \<or> c = bslash")
    case True
    then have "c \<noteq> CHR ''/''" by (auto simp: glob_magic_def bslash_def)
    with True Cons show ?thesis by simp
  next
    case False
    then show ?thesis using Cons
      by (cases "escape_backslash cs") auto
  qed
qed

lemma unescape_escape_brackets:
  "set s \<inter> {CHR ''['', CHR '']'', CHR ''{'', CHR ''}''} = {} \<Longrightarrow>
     unescape_brackets (escape_brackets s) = s"
proof (induction s)
  case Nil
  then show ?case by simp
next
  case (Cons c cs)
  then have IH: "unescape_brackets (escape_brackets cs) = cs" by auto
  from Cons.prems have c: "c \<noteq> CHR ''[''" "c \<noteq> CHR '']''" "c \<noteq> CHR ''{''" "c \<noteq> CHR ''}''"
    by auto
  show ?case
  proof (cases "c \<in> glob_magic")
    case True
    with c have "c \<notin> unwrap_excluded"
      by (auto simp: glob_magic_def unwrap_excluded_def bslash_def)
    with True IH show ?thesis by simp
  next
    case False
    have "unescape_brackets (c # xs) = c # unescape_brackets xs" for xs
      using c by (cases xs rule: unescape_brackets.cases) auto
    with False IH show ?thesis by simp
  qed
qed

text \<open>
  The round trip holds in the default mode for every string, and with
  \<open>windowsPathsNoEscape\<close> for every string without brackets and braces.
\<close>

lemma unescape_escape_default: "unescape (escape s False) False = s"
  by (simp add: unescape_def escape_def unescape_escape_backslash)

lemma unescape_escape_windows:
  "set s \<inter> {CHR ''['', CHR '']'', CHR ''{'', CHR ''}''} = {} \<Longrightarrow>
     unescape (escape s True) True = s"
  by (simp add: unescape_def escape_def unescape_escape_brackets)

text \<open>
  C9: \<open>unescape(escape(s)) == s\<close> for every \<open>s\<close> in both modes. With
  \<open>windowsPathsNoEscape\<close> the code does not return \<open>[\<close>: \<open>escape\<close> wraps it as \<open>[[]\<close>, and
  \<open>unescape\<close> leaves \<open>[[]\<close> as it is, since its pattern excludes a bracket inside the
  brackets.
\<close>

theorem unescape_escape_windows_open_bracket:
  "escape ''['' True = ''[[]'' \<and> unescape (escape ''['' True) True = ''[[]''
     \<and> unescape (escape ''['' True) True \<noteq> ''[''"
  by (simp add: unescape_def escape_def glob_magic_def unwrap_excluded_def)

section \<open>Properties of matchOne\<close>

lemma swallowRest_iff:
  "swallowRest d segs fi = (\<forall>f \<in> set (drop fi segs). \<not> dotSegment d f)"
proof (induction d segs fi rule: swallowRest.induct)
  case (1 d segs fi)
  show ?case
  proof (cases "fi < length segs")
    case True
    then have dr: "drop fi segs = segs ! fi # drop (fi + 1) segs"
      by (simp add: Cons_nth_drop_Suc)
    show ?thesis
      using True 1 by (subst swallowRest.simps) (auto simp: dr)
  next
    case False
    then show ?thesis by (subst swallowRest.simps) simp
  qed
qed

lemma matchOne_for_hits:
  "fi + n \<le> length segs \<Longrightarrow> pi + n \<le> length pat \<Longrightarrow>
   (\<forall>k<n. segHit (pat ! (pi + k)) (segs ! (fi + k))) \<Longrightarrow>
   matchOne_for d segs pat part fi pi = matchOne_for d segs pat part (fi + n) (pi + n)"
proof (induction n arbitrary: fi pi)
  case 0
  then show ?case by simp
next
  case (Suc n)
  from Suc.prems have lt: "fi < length segs" "pi < length pat" by auto
  from Suc.prems(3) have h0: "segHit (pat ! pi) (segs ! fi)" by force
  have step: "matchOne_for d segs pat part fi pi = matchOne_for d segs pat part (fi + 1) (pi + 1)"
    using lt h0 by (subst matchOne_for.simps) (auto simp: segHit_def split: ParseReturn.splits)
  have "\<forall>k<n. segHit (pat ! (pi + 1 + k)) (segs ! (fi + 1 + k))"
    using Suc.prems(3) by (metis Suc_less_eq add_Suc_right add_Suc Suc_eq_plus1)
  then have "matchOne_for d segs pat part (fi + 1) (pi + 1) =
      matchOne_for d segs pat part (fi + 1 + n) (pi + 1 + n)"
    using Suc.prems(1,2) by (intro Suc.IH) auto
  with step show ?case by simp
qed

lemma hits_append:
  "list_all2 segHit ps fs \<Longrightarrow> k < length ps \<Longrightarrow> segHit ((ps @ ps') ! k) ((fs @ fs') ! k)"
  by (auto simp: list_all2_conv_all_nth nth_append)

lemma matchOne_after_hits:
  assumes "list_all2 segHit ps fs"
  shows "matchOne d (fs @ fs') (ps @ ps') part =
     matchOne_for d (fs @ fs') (ps @ ps') part (length fs) (length ps)"
proof -
  have len: "length ps = length fs" using assms by (simp add: list_all2_lengthD)
  have "matchOne_for d (fs @ fs') (ps @ ps') part 0 0 =
     matchOne_for d (fs @ fs') (ps @ ps') part (0 + length fs) (0 + length fs)"
    by (rule matchOne_for_hits) (use assms len in \<open>auto intro: hits_append\<close>)
  then show ?thesis by (simp add: matchOne.simps len)
qed

text \<open>\<open>matchOne\<close> always returns: the \<open>throw\<close> after the loop is never reached.\<close>

lemma matchOne_total:
  "\<exists>b. matchOne d segs pat part = Inr b"
  "fi \<le> length segs \<Longrightarrow> pi \<le> length pat \<Longrightarrow> \<exists>b. matchOne_for d segs pat part fi pi = Inr b"
  "\<exists>b. matchOne_while d segs pat part pr fr = Inr b"
proof (induction d segs pat part and d segs pat part fi pi and d segs pat part pr fr
    rule: matchOne_matchOne_for_matchOne_while.induct)
  case (1 d segs pat part)
  then show ?case by (simp add: matchOne.simps)
next
  case (2 d segs pat part fi pi)
  show ?case
  proof (cases "fi < length segs \<and> pi < length pat")
    case True
    then show ?thesis
      using 2 by (subst matchOne_for.simps) (auto split: ParseReturn.splits)
  next
    case False
    with "2.prems" show ?thesis
      by (subst matchOne_for.simps) auto
  qed
next
  case (3 d segs pat part pr fr)
  show ?case
  proof (cases "fr < length segs")
    case True
    obtain b where b: "matchOne d (drop fr segs) (drop pr pat) part = Inr b"
      using 3(1)[OF True] by blast
    show ?thesis
      using True b 3(2)[OF True b] by (subst matchOne_while.simps) (cases b; auto)
  next
    case False
    then show ?thesis by (subst matchOne_while.simps) simp
  qed
qed

text \<open>
  C8: when the lock-step walk ends, that is, every pattern part walked over has hit its
  file segment until one side ran out: if both ran out together the result is true; if
  only the file ran out the result is the \<open>partial\<close> flag; if only the pattern ran out the
  result is true exactly when one file segment is left and it is the empty string.
\<close>

theorem matchOne_walk_end:
  assumes "list_all2 segHit ps fs"
  shows "matchOne d fs ps part = Inr True
       \<and> matchOne d fs (ps @ p # ps') part = Inr part
       \<and> matchOne d (fs @ f # fs') ps part = Inr (fs' = [] \<and> f = [])"
proof -
  have len: "length ps = length fs" using assms by (simp add: list_all2_lengthD)
  have a: "matchOne d fs ps part = Inr True"
    using matchOne_after_hits[OF assms, of d "[]" "[]" part]
    by (simp add: matchOne_for.simps[of _ _ _ _ "length fs"] len)
  have b: "matchOne d fs (ps @ p # ps') part = Inr part"
    using matchOne_after_hits[OF assms, of d "[]" "p # ps'" part]
    by (simp add: matchOne_for.simps[of _ _ _ _ "length fs"] len)
  have c: "matchOne d (fs @ f # fs') ps part = Inr (fs' = [] \<and> f = [])"
    using matchOne_after_hits[OF assms, of d "f # fs'" "[]" part]
    by (simp add: matchOne_for.simps[of _ _ _ _ "length fs"] len)
  from a b c show ?thesis by simp
qed

theorem matchOne_walk_end_witness:
  "matchOne False [''a'', ''b''] [PString ''a'', PRegExp (\<lambda>s. length s = 1)] False = Inr True
   \<and> matchOne False [''a'', ''b''] [PString ''a'', PRegExp (\<lambda>s. length s = 1), PString ''c''] True
       = Inr True
   \<and> matchOne False [''a'', ''b''] [PString ''a'', PRegExp (\<lambda>s. length s = 1), PString ''c''] False
       = Inr False
   \<and> matchOne False [''a'', ''b'', []] [PString ''a'', PRegExp (\<lambda>s. length s = 1)] False
       = Inr True
   \<and> matchOne False [''a'', ''b'', ''c''] [PString ''a'', PRegExp (\<lambda>s. length s = 1)] False
       = Inr False"
proof -
  have h: "list_all2 segHit [PString ''a'', PRegExp (\<lambda>s. length s = 1)] [''a'', ''b'']"
    by (simp add: segHit_def)
  show ?thesis
    using matchOne_walk_end[OF h, of False False "PString ''c''" "[]" "[]" "[]"]
      matchOne_walk_end[OF h, of False True "PString ''c''" "[]" "''c''" "[]"]
      matchOne_walk_end[OF h, of False False "PString ''c''" "[]" "''c''" "[]"]
    by simp
qed

text \<open>
  C7, as the code has it: a \<open>GLOBSTAR\<close> at the final pattern position, reached by the walk
  with at least one file segment left, makes the match succeed by consuming all
  remaining file segments, except that the result is false if any of them is \<open>.\<close>, \<open>..\<close>
  or (when \<open>dot\<close> is not enabled) begins with a dot. When no file segment is left at that
  position, the result is the \<open>partial\<close> flag.
\<close>

theorem matchOne_final_globstar:
  assumes "list_all2 segHit ps fs"
  shows "matchOne d (fs @ f # fs') (ps @ [GLOBSTAR]) part =
           Inr (\<forall>x \<in> set (f # fs'). \<not> dotSegment d x)
       \<and> matchOne d fs (ps @ [GLOBSTAR]) part = Inr part"
proof -
  have len: "length ps = length fs" using assms by (simp add: list_all2_lengthD)
  have n: "(ps @ [GLOBSTAR]) ! length fs = GLOBSTAR"
    using len by (metis nth_append_length)
  have a: "matchOne d (fs @ f # fs') (ps @ [GLOBSTAR]) part =
           Inr (\<forall>x \<in> set (f # fs'). \<not> dotSegment d x)"
    using matchOne_after_hits[OF assms, of d "f # fs'" "[GLOBSTAR]" part]
    by (simp add: matchOne_for.simps[of _ _ _ _ "length fs"] len n swallowRest_iff)
  have b: "matchOne d fs (ps @ [GLOBSTAR]) part = Inr part"
    using matchOne_after_hits[OF assms, of d "[]" "[GLOBSTAR]" part]
    by (simp add: matchOne_for.simps[of _ _ _ _ "length fs"] len)
  from a b show ?thesis by simp
qed

theorem matchOne_final_globstar_witness:
  "matchOne False [''a'', ''b'', ''c''] [PString ''a'', GLOBSTAR] False = Inr True
   \<and> matchOne False [''a'', ''b'', ''.c''] [PString ''a'', GLOBSTAR] False = Inr False
   \<and> matchOne True [''a'', ''b'', ''.c''] [PString ''a'', GLOBSTAR] False = Inr True
   \<and> matchOne True [''a'', ''b'', ''..''] [PString ''a'', GLOBSTAR] False = Inr False"
proof -
  have h: "list_all2 segHit [PString ''a''] [''a'']"
    by (simp add: segHit_def)
  show ?thesis
    using matchOne_final_globstar[OF h, of False "''b''" "[''c'']" False]
      matchOne_final_globstar[OF h, of False "''b''" "[''.c'']" False]
      matchOne_final_globstar[OF h, of True "''b''" "[''.c'']" False]
      matchOne_final_globstar[OF h, of True "''b''" "[''..'']" False]
    by (simp add: dotSegment_def)
qed

text \<open>
  C7 as stated fails where no file segment is left for the final \<open>GLOBSTAR\<close>: the file
  \<open>a\<close> against the pattern \<open>a/**\<close> has no remaining segment that could be a dot segment,
  and the result is false.
\<close>

theorem matchOne_final_globstar_counterexample:
  "matchOne False [''a''] [PString ''a'', GLOBSTAR] False = Inr False"
  by (simp add: matchOne.simps matchOne_for.simps)

section \<open>Properties of the constructor\<close>

lemma make_flags:
  assumes "Minimatch_make env bc this0 = (this1, bc1)"
  shows "mm_comment this1 =
           (mm_comment this0 \<or> (\<not> nocomment (mm_options this0) \<and> take 1 (mm_pattern this0) = ''#''))"
    and "mm_options this1 = mm_options this0"
    and "mm_partial this1 = mm_partial this0"
    and "mm_isWindows this1 = mm_isWindows this0"
    and "mm_windowsPathsNoEscape this1 = mm_windowsPathsNoEscape this0"
  using assms
  by (auto simp: Minimatch_make_def parseNegate_def Let_def split: if_splits prod.splits)

lemma make_empty:
  assumes "Minimatch_make env bc this0 = (this1, bc1)" "\<not> mm_empty this0"
  shows "mm_empty this1 =
     (\<not> (\<not> nocomment (mm_options this0) \<and> take 1 (mm_pattern this0) = ''#'') \<and> mm_pattern this0 = [])"
  using assms
  by (auto simp: Minimatch_make_def parseNegate_def Let_def split: if_splits prod.splits)

lemma make_pattern:
  assumes "Minimatch_make env bc this0 = (this1, bc1)"
  shows "mm_pattern this1 =
     (if (\<not> nocomment (mm_options this0) \<and> take 1 (mm_pattern this0) = ''#'') \<or> mm_pattern this0 = []
         \<or> mm_nonegate this0
      then mm_pattern this0
      else dropWhile (\<lambda>c. c = CHR ''!'') (mm_pattern this0))"
  using assms
  by (auto simp: Minimatch_make_def parseNegate_def Let_def dropWhile_eq_drop
      split: if_splits prod.splits)

lemma make_negate:
  assumes "Minimatch_make env bc this0 = (this1, bc1)" "\<not> mm_negate this0"
  shows "mm_negate this1 =
     (\<not> (\<not> nocomment (mm_options this0) \<and> take 1 (mm_pattern this0) = ''#'') \<and> mm_pattern this0 \<noteq> []
        \<and> \<not> mm_nonegate this0 \<and> odd (length (takeWhile (\<lambda>c. c = CHR ''!'') (mm_pattern this0))))"
  using assms
  by (auto simp: Minimatch_make_def parseNegate_def Let_def split: if_splits prod.splits)

text \<open>The constructor throws exactly when the pattern is longer than 65536.\<close>

lemma Minimatch_new_ok:
  "length pattern \<le> MAX_PATTERN_LENGTH \<Longrightarrow>
     \<exists>this bc'. Minimatch_new env bc pattern options = (Inr this, bc')"
  by (auto simp: Minimatch_new_def Let_def split: prod.splits)

lemma Minimatch_new_too_long:
  "length pattern > MAX_PATTERN_LENGTH \<Longrightarrow>
     Minimatch_new env bc pattern options = (Inl (TypeError ''pattern is too long''), bc)"
  by (simp add: Minimatch_new_def)

lemma Minimatch_new_Inr:
  assumes "Minimatch_new env bc pattern options = (Inr this, bc')"
  obtains this1 where
    "Minimatch_make env bc (Minimatch_init env pattern options) = (this1, bc')"
    "this = this1\<lparr>mm_hasNegatedCharClassCached := hasNegatedCharClass (mm_pattern this1),
                   mm_requiresTrailingSlashCached := requiresTrailingSlash (mm_pattern this1),
                   mm_patternBasename := afterLastSlash (mm_pattern this1)\<rparr>"
  using assms
  by (cases "Minimatch_make env bc (Minimatch_init env pattern options)")
     (simp add: Minimatch_new_def split: if_splits)

lemma Minimatch_init_fields:
  "mm_pattern (Minimatch_init env pattern options) = normalized pattern options"
  "mm_options (Minimatch_init env pattern options) = options"
  "mm_partial (Minimatch_init env pattern options) = partial options"
  "mm_nonegate (Minimatch_init env pattern options) = nonegate options"
  "mm_windowsPathsNoEscape (Minimatch_init env pattern options) =
     (windowsPathsNoEscape options \<or> allowWindowsEscape options = Some False)"
  "\<not> mm_comment (Minimatch_init env pattern options)"
  "\<not> mm_empty (Minimatch_init env pattern options)"
  "\<not> mm_negate (Minimatch_init env pattern options)"
  by (simp_all add: Minimatch_init_def Let_def normalized_def normalizePattern_def)

lemma Minimatch_new_fields:
  assumes "Minimatch_new env bc pattern options = (Inr this, bc')"
  shows "mm_options this = options"
    and "mm_partial this = partial options"
    and "mm_windowsPathsNoEscape this =
           (windowsPathsNoEscape options \<or> allowWindowsEscape options = Some False)"
    and "mm_comment this = (\<not> nocomment options \<and> take 1 (normalized pattern options) = ''#'')"
    and "mm_empty this = (\<not> mm_comment this \<and> normalized pattern options = [])"
    and "mm_pattern this =
           (if mm_comment this \<or> mm_empty this \<or> nonegate options then normalized pattern options
            else dropWhile (\<lambda>c. c = CHR ''!'') (normalized pattern options))"
    and "mm_negate this =
           (\<not> mm_comment this \<and> \<not> mm_empty this \<and> \<not> nonegate options
            \<and> odd (length (takeWhile (\<lambda>c. c = CHR ''!'') (normalized pattern options))))"
    and "mm_patternBasename this = afterLastSlash (mm_pattern this)"
    and "mm_hasNegatedCharClassCached this = hasNegatedCharClass (mm_pattern this)"
    and "mm_requiresTrailingSlashCached this = requiresTrailingSlash (mm_pattern this)"
proof -
  from assms obtain this1 where
    mk: "Minimatch_make env bc (Minimatch_init env pattern options) = (this1, bc')" and
    eq: "this = this1\<lparr>mm_hasNegatedCharClassCached := hasNegatedCharClass (mm_pattern this1),
                   mm_requiresTrailingSlashCached := requiresTrailingSlash (mm_pattern this1),
                   mm_patternBasename := afterLastSlash (mm_pattern this1)\<rparr>"
    by (rule Minimatch_new_Inr)
  note f = make_flags[OF mk] make_empty[OF mk Minimatch_init_fields(7)]
    make_pattern[OF mk] make_negate[OF mk Minimatch_init_fields(8)]
  show "mm_options this = options" by (simp add: eq f Minimatch_init_fields)
  show "mm_partial this = partial options" by (simp add: eq f Minimatch_init_fields)
  show "mm_windowsPathsNoEscape this =
           (windowsPathsNoEscape options \<or> allowWindowsEscape options = Some False)"
    by (simp add: eq f Minimatch_init_fields)
  show c: "mm_comment this = (\<not> nocomment options \<and> take 1 (normalized pattern options) = ''#'')"
    by (simp add: eq f Minimatch_init_fields)
  show e: "mm_empty this = (\<not> mm_comment this \<and> normalized pattern options = [])"
    by (simp add: eq f Minimatch_init_fields)
  show "mm_pattern this =
           (if mm_comment this \<or> mm_empty this \<or> nonegate options then normalized pattern options
            else dropWhile (\<lambda>c. c = CHR ''!'') (normalized pattern options))"
    unfolding c e by (simp add: eq f Minimatch_init_fields)
  show "mm_negate this =
           (\<not> mm_comment this \<and> \<not> mm_empty this \<and> \<not> nonegate options
            \<and> odd (length (takeWhile (\<lambda>c. c = CHR ''!'') (normalized pattern options))))"
    unfolding c e by (auto simp add: eq f Minimatch_init_fields)
  show "mm_patternBasename this = afterLastSlash (mm_pattern this)" by (simp add: eq)
  show "mm_hasNegatedCharClassCached this = hasNegatedCharClass (mm_pattern this)"
    by (simp add: eq)
  show "mm_requiresTrailingSlashCached this = requiresTrailingSlash (mm_pattern this)"
    by (simp add: eq)
qed

lemma compiled_Some:
  "compiled env pattern options = Some this \<Longrightarrow>
     \<exists>bc'. Minimatch_new env [] pattern options = (Inr this, bc')"
  by (cases "Minimatch_new env [] pattern options")
     (auto simp: compiled_def split: sum.splits)

lemma compiled_ok:
  "length pattern \<le> MAX_PATTERN_LENGTH \<Longrightarrow> \<exists>this. compiled env pattern options = Some this"
  using Minimatch_new_ok[of pattern env "[]" options] by (auto simp: compiled_def)

section \<open>Properties of match\<close>

lemma match_dot_guard:
  assumes nc: "\<not> mm_comment this" "\<not> mm_empty this"
    and seg: "afterLastSlash
           (if (mm_windowsPathsNoEscape this \<or> mm_isWindows this) \<and> bslash \<in> set path
            then backslashesToSlashes path else path) = seg"
    and dots: "seg = ''.'' \<or> seg = ''..''"
    and g1: "mm_patternBasename this \<noteq> seg"
    and g2: "mm_patternBasename this \<noteq> ''.*'' @ drop 1 seg"
    and g3: "\<not> str_includes (mm_pattern this) seg"
  shows "Minimatch_match this path partialArg = mm_negate this"
proof -
  have ne: "path \<noteq> ''/''" using seg dots by (auto simp: afterLastSlash_def bslash_def)
  show ?thesis
  proof (cases "(mm_windowsPathsNoEscape this \<or> mm_isWindows this) \<and> bslash \<in> set path")
    case True
    then have c: "((mm_windowsPathsNoEscape this \<or> mm_isWindows this) \<and> bslash \<in> set path) = True"
      by simp
    from seg have seg': "afterLastSlash (backslashesToSlashes path) = seg"
      unfolding c by simp
    show ?thesis
      unfolding Minimatch_match_def Let_def normalizePath_def c
      using nc ne dots g1 g2 g3
      by (simp add: seg' split del: if_split) simp
  next
    case False
    then have c: "((mm_windowsPathsNoEscape this \<or> mm_isWindows this) \<and> bslash \<in> set path) = False"
      by simp
    from seg have seg': "afterLastSlash path = seg"
      unfolding c by simp
    show ?thesis
      unfolding Minimatch_match_def Let_def normalizePath_def c
      using nc ne dots g1 g2 g3
      by (simp add: seg' split del: if_split) simp
  qed
qed

lemma star_instance:
  assumes "Minimatch_new env bc ''*'' options = (Inr this, bc')"
  shows "\<not> mm_comment this" "\<not> mm_empty this" "\<not> mm_negate this" "mm_pattern this = ''*''"
    "mm_patternBasename this = ''*''"
  using Minimatch_new_fields[OF assms]
  by (simp_all add: normalized_def backslashesToSlashes_def bslash_def afterLastSlash_def)

text \<open>
  C10: for an instance that is neither a comment nor empty, \<open>match('/', true)\<close> returns
  true, whatever the negation and \<open>flipNegate\<close>; so does \<open>match('/')\<close> when the
  \<open>partial\<close> option supplies the flag.
\<close>

theorem match_root_partial:
  assumes "Minimatch_new env bc pattern options = (Inr this, bc')"
    and "\<not> mm_comment this" and "\<not> mm_empty this"
  shows "Minimatch_match this ''/'' (Some True) = True
       \<and> (partial options \<longrightarrow> Minimatch_match this ''/'' None = True)"
  using assms(2,3) Minimatch_new_fields(2)[OF assms(1)] by (simp add: Minimatch_match_def)

theorem match_root_partial_witness:
  "map_option (\<lambda>this. (mm_negate this, mm_comment this, mm_empty this,
       flipNegate (mm_options this), Minimatch_match this ''/'' (Some True)))
     (compiled testEnv ''!a'' (defaultOptions\<lparr>flipNegate := True\<rparr>))
   = Some (True, False, False, True, True)"
proof -
  obtain this where c: "compiled testEnv ''!a'' (defaultOptions\<lparr>flipNegate := True\<rparr>) = Some this"
    using compiled_ok[of "''!a''"] by (auto simp: MAX_PATTERN_LENGTH_def)
  then obtain bc' where n: "Minimatch_new testEnv [] ''!a'' (defaultOptions\<lparr>flipNegate := True\<rparr>)
      = (Inr this, bc')"
    using compiled_Some by blast
  note f = Minimatch_new_fields[OF n]
  have flags: "\<not> mm_comment this" "\<not> mm_empty this" "mm_negate this" "flipNegate (mm_options this)"
    using f by (simp_all add: normalized_def defaultOptions_def)
  from match_root_partial[OF n flags(1,2)] flags c show ?thesis by simp
qed

text \<open>
  C4, as the code has it: for an instance that is neither a comment nor empty and a
  path whose final segment (after the backslashes are folded, where they are) is \<open>.\<close>
  or \<open>..\<close>, \<open>match\<close> goes on to the matchers only if the basename of the pattern is
  that segment, or is \<open>.*\<close> followed by the segment without its first character, or
  the pattern contains the segment as a substring; otherwise it returns the negation
  flag, whatever \<open>dot\<close> is. In particular \<open>match('.', '*')\<close> and
  \<open>match('..', '*', {dot: true})\<close> are false.
\<close>

theorem match_dot_segments:
  assumes "Minimatch_new env bc pattern options = (Inr this, bc')"
    and "\<not> mm_comment this" and "\<not> mm_empty this"
    and "afterLastSlash
           (if (mm_windowsPathsNoEscape this \<or> mm_isWindows this) \<and> bslash \<in> set path
            then backslashesToSlashes path else path) = seg"
    and "seg = ''.'' \<or> seg = ''..''"
    and "afterLastSlash (mm_pattern this) \<noteq> seg"
    and "afterLastSlash (mm_pattern this) \<noteq> ''.*'' @ drop 1 seg"
    and "\<not> str_includes (mm_pattern this) seg"
  shows "Minimatch_match this path partialArg = mm_negate this
       \<and> (\<exists>star bc1. Minimatch_new env bc ''*'' defaultOptions = (Inr star, bc1)
             \<and> Minimatch_match star ''.'' None = False)
       \<and> (\<exists>star bc1. Minimatch_new env bc ''*'' (defaultOptions\<lparr>dot := True\<rparr>) = (Inr star, bc1)
             \<and> Minimatch_match star ''..'' None = False)"
proof -
  have a: "Minimatch_match this path partialArg = mm_negate this"
    using assms Minimatch_new_fields(8)[OF assms(1)] by (intro match_dot_guard[where seg = seg]) simp_all
  have b: "Minimatch_match star p None = False"
    if n: "Minimatch_new env bc ''*'' opts = (Inr star, bc1)" and p: "p = ''.'' \<or> p = ''..''"
    for star bc1 opts p
  proof -
    note s = star_instance[OF n]
    have "Minimatch_match star p None = mm_negate star"
      using s p by (intro match_dot_guard[where seg = p])
        (auto simp: afterLastSlash_def bslash_def startsWith_def)
    with s show ?thesis by simp
  qed
  obtain s1 b1 where n1: "Minimatch_new env bc ''*'' defaultOptions = (Inr s1, b1)"
    using Minimatch_new_ok[of "''*''" env bc defaultOptions] by (auto simp: MAX_PATTERN_LENGTH_def)
  obtain s2 b2 where n2: "Minimatch_new env bc ''*'' (defaultOptions\<lparr>dot := True\<rparr>) = (Inr s2, b2)"
    using Minimatch_new_ok[of "''*''" env bc "defaultOptions\<lparr>dot := True\<rparr>"]
    by (auto simp: MAX_PATTERN_LENGTH_def)
  from a b[OF n1, of "''.''"] b[OF n2, of "''..''"] n1 n2 show ?thesis by auto
qed

theorem match_dot_segments_witness:
  "map_option (\<lambda>this. (mm_negate this, Minimatch_match this ''a/..'' None))
     (compiled testEnv ''!*'' defaultOptions) = Some (True, True)"
proof -
  obtain this where c: "compiled testEnv ''!*'' defaultOptions = Some this"
    using compiled_ok[of "''!*''" testEnv defaultOptions] by (auto simp: MAX_PATTERN_LENGTH_def)
  then obtain bc' where n: "Minimatch_new testEnv [] ''!*'' defaultOptions = (Inr this, bc')"
    using compiled_Some by blast
  note f = Minimatch_new_fields[OF n]
  have flags: "\<not> mm_comment this" "\<not> mm_empty this" "mm_negate this" "mm_pattern this = ''*''"
    using f by (simp_all add: normalized_def defaultOptions_def)
  have "Minimatch_match this ''a/..'' None = mm_negate this"
    using match_dot_segments[OF n flags(1,2), of "''a/..''" "''..''" None]
    by (simp add: flags afterLastSlash_def bslash_def startsWith_def)
  with flags c show ?thesis by simp
qed

text \<open>
  C4 as stated fails for a pattern whose basename differs from the segment but whose
  text contains it: \<open>{.,a}\<close> has the basename \<open>{.,a}\<close>, not \<open>.\<close>, and is not negated,
  yet \<open>match('.')\<close> goes on to the matchers and returns true (the alternative \<open>.\<close>
  matches).
\<close>

theorem match_dot_segments_counterexample:
  "map_option (\<lambda>this. (mm_patternBasename this, mm_globSet this, mm_negate this, mm_comment this,
       mm_empty this, Minimatch_match this ''.'' None))
     (compiled testEnv ''{.,a}'' defaultOptions)
   = Some (''{.,a}'', [''.'', ''a''], False, False, False, True)"
  by (simp add: compiled_def Minimatch_new_def Minimatch_init_def Minimatch_make_def
      parseNegate_def braceExpand_def hasBracePair_def trySimpleBraceExpand_def testEnv_def
      defaultOptions_def Let_def uniq_def Minimatch_match_def afterLastSlash_def startsWith_def
      endsWith_def translateOptions_def MAX_PATTERN_LENGTH_def addToBraceCache_def
      BRACE_CACHE_SIZE_def normalizePattern_def isWindows_def bslash_def)

lemma getOrCreateMatcher_ok:
  assumes "length pattern \<le> MAX_PATTERN_LENGTH"
  shows "\<exists>mm caches'. getOrCreateMatcher env caches pattern options = (Inr mm, caches')"
proof (cases "map_of (patternCache caches) (getCacheKey pattern options)")
  case None
  obtain this bc' where "Minimatch_new env (braceCache caches) pattern options = (Inr this, bc')"
    using Minimatch_new_ok[OF assms] by blast
  with None show ?thesis by (simp add: getOrCreateMatcher_def Let_def)
next
  case (Some mm)
  then show ?thesis by (simp add: getOrCreateMatcher_def Let_def)
qed

lemma getOrCreateMatcher_empty:
  assumes "getOrCreateMatcher env emptyCaches pattern options = (Inr mm, caches')"
  shows "\<exists>bc'. Minimatch_new env [] pattern options = (Inr mm, bc')"
  using assms
  by (auto simp: getOrCreateMatcher_def emptyCaches_def Let_def split: prod.splits sum.splits)

text \<open>
  C3: the constructor never looks at \<open>maxLength\<close>. With \<open>maxLength\<close> set to any number
  (0, a negative one, \<open>NaN\<close>, an infinity) it builds the instance of \<open>test\<close>, and with
  \<open>maxLength: 50\<close> it builds the instance of a pattern of 51 characters.
\<close>

theorem Minimatch_new_ignores_maxLength:
  "(\<exists>this bc'. Minimatch_new env bc ''test'' (options\<lparr>maxLength := Some n\<rparr>) = (Inr this, bc'))
   \<and> (\<exists>this bc'. Minimatch_new env bc (replicate 51 (CHR ''a''))
          (options\<lparr>maxLength := Some (Finite 50)\<rparr>) = (Inr this, bc'))"
  using Minimatch_new_ok[of "''test''" env bc "options\<lparr>maxLength := Some n\<rparr>"]
    Minimatch_new_ok[of "replicate 51 (CHR ''a'')" env bc "options\<lparr>maxLength := Some (Finite 50)\<rparr>"]
  by (simp add: MAX_PATTERN_LENGTH_def)

text \<open>
  C2: \<open>minimatch.match\<close> has no branch for \<open>failglob\<close>. With \<open>failglob\<close> set it returns a
  list for the paths \<open>a.txt\<close>, \<open>b.txt\<close> and the pattern \<open>*.js\<close>; on an empty list of
  paths, where nothing can match, it returns the empty list, and the pattern itself
  when \<open>nonull\<close> is set too.
\<close>

theorem minimatch_match_ignores_failglob:
  "(\<exists>r caches'. minimatch_match env caches [''a.txt'', ''b.txt''] ''*.js''
        (options\<lparr>failglob := True\<rparr>) = (Inr r, caches'))
   \<and> fst (minimatch_match env emptyCaches [] ''*.js'' (defaultOptions\<lparr>failglob := True\<rparr>)) = Inr []
   \<and> fst (minimatch_match env emptyCaches [] ''*.js''
        (defaultOptions\<lparr>failglob := True, nonull := True\<rparr>)) = Inr [''*.js'']"
proof -
  have len: "length ''*.js'' \<le> MAX_PATTERN_LENGTH" by (simp add: MAX_PATTERN_LENGTH_def)
  have a: "\<exists>r caches'. minimatch_match env caches [''a.txt'', ''b.txt''] ''*.js''
        (options\<lparr>failglob := True\<rparr>) = (Inr r, caches')"
    using getOrCreateMatcher_ok[OF len, of env caches "options\<lparr>failglob := True\<rparr>"]
    by (auto simp: minimatch_match_def Let_def)
  have b: "fst (minimatch_match env emptyCaches [] ''*.js'' opts)
      = Inr (if nonull opts then [''*.js''] else [])" for opts
  proof -
    obtain mm caches' where g: "getOrCreateMatcher env emptyCaches ''*.js'' opts = (Inr mm, caches')"
      using getOrCreateMatcher_ok[OF len] by blast
    then obtain bc' where "Minimatch_new env [] ''*.js'' opts = (Inr mm, bc')"
      using getOrCreateMatcher_empty by blast
    then have "mm_options mm = opts" by (rule Minimatch_new_fields(1))
    with g show ?thesis by (simp add: minimatch_match_def)
  qed
  from a b[of "defaultOptions\<lparr>failglob := True\<rparr>"]
    b[of "defaultOptions\<lparr>failglob := True, nonull := True\<rparr>"]
  show ?thesis by (simp add: defaultOptions_def)
qed

text \<open>
  C1: with \<open>windowsPathsNoEscape\<close> the fast path and the full match disagree on the
  path \<open>a\.\<close> (the backslash written once) and the pattern \<open>*\<close>. \<open>tryFastPath\<close> sees no
  slash and answers true; \<open>match\<close> folds the backslash, finds the final segment \<open>.\<close>
  and answers false before any matcher runs. \<open>minimatch\<close> returns the fast answer.
\<close>

theorem tryFastPath_backslash_path:
  "tryFastPath env [CHR ''a'', bslash, CHR ''.''] ''*''
       (defaultOptions\<lparr>windowsPathsNoEscape := True\<rparr>)
     = Some True
   \<and> (\<exists>this bc'. Minimatch_new env bc ''*'' (defaultOptions\<lparr>windowsPathsNoEscape := True\<rparr>)
          = (Inr this, bc')
        \<and> Minimatch_match this [CHR ''a'', bslash, CHR ''.''] None = False)
   \<and> fst (minimatch env caches [CHR ''a'', bslash, CHR ''.''] ''*''
        (defaultOptions\<lparr>windowsPathsNoEscape := True\<rparr>)) = Inr True"
proof -
  let ?o = "defaultOptions\<lparr>windowsPathsNoEscape := True\<rparr>"
  let ?p = "[CHR ''a'', bslash, CHR ''.'']"
  have fast: "tryFastPath env ?p ''*'' ?o = Some True"
    by (simp add: tryFastPath_def defaultOptions_def isStars_def startsWith_def bslash_def)
  obtain this bc' where n: "Minimatch_new env bc ''*'' ?o = (Inr this, bc')"
    using Minimatch_new_ok[of "''*''" env bc ?o] by (auto simp: MAX_PATTERN_LENGTH_def)
  note s = star_instance[OF n]
  have w: "mm_windowsPathsNoEscape this"
    using Minimatch_new_fields(3)[OF n] by (simp add: defaultOptions_def)
  have "Minimatch_match this ?p None = mm_negate this"
    using s w by (intro match_dot_guard[where seg = "''.''"])
      (auto simp: afterLastSlash_def backslashesToSlashes_def bslash_def startsWith_def)
  with s have full: "Minimatch_match this ?p None = False" by simp
  have mini: "fst (minimatch env caches ?p ''*'' ?o) = Inr True"
    using fast by (simp add: minimatch_def mightUseFastPath_def defaultOptions_def)
  from fast n full mini show ?thesis by blast
qed

section \<open>Properties of the pattern cache\<close>

lemma update_fresh: "k \<notin> fst ` set al \<Longrightarrow> AList.update k v al = al @ [(k, v)]"
  by (induction al) auto

lemma deleteFirstKey_distinct:
  "distinct (map fst m) \<Longrightarrow> deleteFirstKey m = tl m"
  by (cases m) (auto simp: deleteFirstKey_def)

lemma map_of_Some_key: "map_of al k = Some v \<Longrightarrow> k \<in> fst ` set al"
  by (metis map_of_eq_None_iff option.distinct(1))

lemma length_delete_less:
  "k \<in> fst ` set al \<Longrightarrow> length (AList.delete k al) < length al"
proof (induction al)
  case Nil
  then show ?case by simp
next
  case (Cons a al)
  show ?case
  proof (cases "fst a = k")
    case True
    then show ?thesis using length_delete_le[of k al] by (cases a) (simp add: less_Suc_eq_le)
  next
    case False
    with Cons show ?thesis by (cases a) auto
  qed
qed

lemma getOrCreateMatcher_hit:
  assumes "map_of (patternCache caches) (getCacheKey pattern options) = Some mm"
  shows "getOrCreateMatcher env caches pattern options =
     (Inr mm, caches\<lparr>patternCache :=
        AList.delete (getCacheKey pattern options) (patternCache caches)
          @ [(getCacheKey pattern options, mm)]\<rparr>)"
  using assms by (simp add: getOrCreateMatcher_def Let_def update_fresh delete_notin_dom)

lemma getOrCreateMatcher_miss:
  assumes "map_of (patternCache caches) (getCacheKey pattern options) = None"
    and "distinct (map fst (patternCache caches))"
    and "getOrCreateMatcher env caches pattern options = (Inr mm, caches')"
  shows "patternCache caches' =
     (if length (patternCache caches) \<ge> CACHE_SIZE then tl (patternCache caches)
      else patternCache caches) @ [(getCacheKey pattern options, mm)]"
proof -
  let ?k = "getCacheKey pattern options"
  have notin: "?k \<notin> fst ` set (patternCache caches)"
    using assms(1) by (simp add: map_of_eq_None_iff)
  then have notin': "?k \<notin> fst ` set (tl (patternCache caches))"
    by (cases "patternCache caches") auto
  show ?thesis
    using assms(1,3) notin notin'
    by (auto simp: getOrCreateMatcher_def Let_def deleteFirstKey_distinct[OF assms(2)] update_fresh
        split: prod.splits sum.splits)
qed

lemma getOrCreateMatcher_throw:
  assumes "getOrCreateMatcher env caches pattern options = (Inl e, caches')"
  shows "patternCache caches' = patternCache caches"
  using assms
  by (auto simp: getOrCreateMatcher_def Let_def split: option.splits prod.splits sum.splits)

lemma getOrCreateMatcher_inv:
  assumes "distinct (map fst (patternCache caches))"
    and "length (patternCache caches) \<le> CACHE_SIZE"
    and "getOrCreateMatcher env caches pattern options = (res, caches')"
  shows "distinct (map fst (patternCache caches')) \<and> length (patternCache caches') \<le> CACHE_SIZE"
proof (cases res)
  case (Inl e)
  with assms show ?thesis using getOrCreateMatcher_throw by metis
next
  case (Inr mm)
  let ?k = "getCacheKey pattern options"
  let ?pc = "patternCache caches"
  show ?thesis
  proof (cases "map_of ?pc ?k")
    case None
    have pc': "patternCache caches' = (if length ?pc \<ge> CACHE_SIZE then tl ?pc else ?pc) @ [(?k, mm)]"
      using getOrCreateMatcher_miss[OF None assms(1)] assms(3) Inr by simp
    have notin: "?k \<notin> fst ` set ?pc" using None by (simp add: map_of_eq_None_iff)
    then have notin': "?k \<notin> fst ` set (tl ?pc)" by (cases ?pc) auto
    have "0 < CACHE_SIZE" by (simp add: CACHE_SIZE_def)
    then show ?thesis
      using assms(1,2) notin notin' by (cases ?pc) (auto simp: pc')
  next
    case (Some mm')
    have pc': "patternCache caches' = AList.delete ?k ?pc @ [(?k, mm')]"
      using getOrCreateMatcher_hit[OF Some, of env] assms(3) by auto
    have "length (AList.delete ?k ?pc) < length ?pc"
      using Some by (intro length_delete_less map_of_Some_key)
    then show ?thesis
      using assms(1,2) by (auto simp: pc' distinct_delete delete_notin_dom)
  qed
qed

lemma compileAll_inv:
  assumes "distinct (map fst (patternCache caches))"
    and "length (patternCache caches) \<le> CACHE_SIZE"
  shows "distinct (map fst (patternCache (compileAll env caches calls)))
       \<and> length (patternCache (compileAll env caches calls)) \<le> CACHE_SIZE"
  using assms
proof (induction calls arbitrary: caches)
  case Nil
  then show ?case by simp
next
  case (Cons c calls)
  obtain p opts where c: "c = (p, opts)" by (cases c)
  obtain res caches' where g: "getOrCreateMatcher env caches p opts = (res, caches')"
    by (cases "getOrCreateMatcher env caches p opts")
  from getOrCreateMatcher_inv[OF Cons.prems g] Cons.IH[of caches'] show ?case
    by (simp add: c g)
qed

lemma getOrCreateMatcher_keys:
  assumes "distinct (map fst (patternCache caches))"
    and "getOrCreateMatcher env caches pattern options = (Inr mm, caches')"
  shows "map fst (patternCache caches') =
     touch CACHE_SIZE (map fst (patternCache caches)) (getCacheKey pattern options)"
proof (cases "map_of (patternCache caches) (getCacheKey pattern options)")
  case None
  then have "getCacheKey pattern options \<notin> set (map fst (patternCache caches))"
    by (simp add: map_of_eq_None_iff)
  then show ?thesis
    using getOrCreateMatcher_miss[OF None assms]
    by (cases "patternCache caches") (auto simp: touch_def)
next
  case (Some mm')
  then have "getCacheKey pattern options \<in> set (map fst (patternCache caches))"
    using map_of_Some_key[OF Some] by simp
  then show ?thesis
    using getOrCreateMatcher_hit[OF Some, of env] assms(2) by (auto simp: touch_def delete_keys)
qed

lemma touch_lastN:
  assumes "distinct r" and "0 < n"
  shows "touch n (lastN n r) k = lastN n (removeAll k r @ [k])"
proof -
  define d where "d = length r - n"
  define ks where "ks = drop d r"
  have r: "r = take d r @ ks" by (simp add: ks_def)
  have ks: "lastN n r = ks" by (simp add: lastN_def ks_def d_def)
  have dk: "distinct ks" using assms(1) by (simp add: ks_def)
  show ?thesis
  proof (cases "k \<in> set ks")
    case True
    then have "k \<notin> set (take d r)"
      using assms(1) r by (metis IntI distinct_append empty_iff)
    then have ra: "removeAll k r = take d r @ removeAll k ks"
      by (subst r) (simp del: append_take_drop_id)
    have len: "length (removeAll k ks) = length ks - 1"
      using True dk by (simp add: distinct_remove1_removeAll[symmetric] length_remove1)
    have "0 < length ks" using True by (cases ks) auto
    then have "length (removeAll k r @ [k]) - n = d"
      using len by (auto simp: ra ks_def d_def)
    then have "lastN n (removeAll k r @ [k]) = removeAll k ks @ [k]"
      by (auto simp: lastN_def ra d_def)
    with True ks show ?thesis by (simp add: touch_def)
  next
    case False
    have ra: "removeAll k r = removeAll k (take d r) @ ks"
      using False by (subst r) (simp del: append_take_drop_id)
    show ?thesis
    proof (cases "length ks \<ge> n")
      case True
      have "length ks \<le> n" by (auto simp: ks_def d_def)
      with True have lk: "length ks = n" by simp
      then have ne: "ks \<noteq> []" using assms(2) by auto
      have "lastN n (removeAll k r @ [k]) = drop (Suc (length (removeAll k (take d r))))
          (removeAll k (take d r) @ ks @ [k])"
        by (simp add: lastN_def ra lk)
      also have "\<dots> = tl ks @ [k]" using ne by (cases ks) auto
      finally show ?thesis using False True ks by (simp add: touch_def)
    next
      case False2: False
      then have "length r < n" by (auto simp: ks_def d_def)
      then have "d = 0" by (simp add: d_def)
      then have kr: "ks = r" by (simp add: ks_def)
      have "lastN n (r @ [k]) = r @ [k]" using \<open>length r < n\<close> by (simp add: lastN_def)
      then show ?thesis using False False2 ks kr by (simp add: touch_def)
    qed
  qed
qed

lemma remdups_snoc: "remdups (xs @ [k]) = removeAll k (remdups xs) @ [k]"
  by (induction xs) auto

lemma compileAll_snoc:
  "compileAll env caches (calls @ [(p, opts)]) =
     snd (getOrCreateMatcher env (compileAll env caches calls) p opts)"
  by (induction calls arbitrary: caches) auto

lemma compileAll_keys:
  assumes "list_all (\<lambda>(pattern, options). length pattern \<le> MAX_PATTERN_LENGTH) calls"
  shows "map fst (patternCache (compileAll env emptyCaches calls)) =
     lastN CACHE_SIZE (remdups (callKeys calls))"
  using assms
proof (induction calls rule: rev_induct)
  case Nil
  then show ?case by (simp add: emptyCaches_def lastN_def callKeys_def)
next
  case (snoc c calls)
  obtain p opts where c: "c = (p, opts)" by (cases c)
  let ?before = "compileAll env emptyCaches calls"
  from snoc.prems c have short: "length p \<le> MAX_PATTERN_LENGTH" by simp
  then obtain mm caches' where g: "getOrCreateMatcher env ?before p opts = (Inr mm, caches')"
    using getOrCreateMatcher_ok by blast
  have inv: "distinct (map fst (patternCache ?before))"
    using compileAll_inv[of emptyCaches env calls] by (simp add: emptyCaches_def)
  have IH: "map fst (patternCache ?before) = lastN CACHE_SIZE (remdups (callKeys calls))"
    using snoc by simp
  have "map fst (patternCache caches') =
      touch CACHE_SIZE (lastN CACHE_SIZE (remdups (callKeys calls))) (getCacheKey p opts)"
    using getOrCreateMatcher_keys[OF inv g] IH by simp
  also have "\<dots> = lastN CACHE_SIZE (removeAll (getCacheKey p opts) (remdups (callKeys calls))
      @ [getCacheKey p opts])"
    by (rule touch_lastN) (simp_all add: CACHE_SIZE_def)
  also have "\<dots> = lastN CACHE_SIZE (remdups (callKeys (calls @ [c])))"
    by (simp add: callKeys_def c remdups_snoc)
  finally show ?case by (simp add: c compileAll_snoc g)
qed

text \<open>
  C5: a call of \<open>getOrCreateMatcher\<close> on a cache of at most 500 entries leaves at most
  500 entries; a hit moves the entry to the end, the most recently used place, and keeps
  the others in their order; a miss on a full cache drops the first entry, the oldest in
  insertion and promotion order, and nothing else, before it appends the new one. So any
  run of calls from the empty cache ends with at most 500 entries, and when every
  pattern is short enough to compile, the cache holds the 500 most recently touched
  keys, the least recently touched first.
\<close>

theorem patternCache_bounded_lru:
  assumes "distinct (map fst (patternCache caches))"
    and "length (patternCache caches) \<le> CACHE_SIZE"
    and "getOrCreateMatcher env caches pattern options = (res, caches')"
    and "list_all (\<lambda>(pattern, options). length pattern \<le> MAX_PATTERN_LENGTH) calls"
  shows "getCacheSize caches' \<le> CACHE_SIZE
       \<and> (\<forall>mm. map_of (patternCache caches) (getCacheKey pattern options) = Some mm \<longrightarrow>
              res = Inr mm
            \<and> patternCache caches' =
                AList.delete (getCacheKey pattern options) (patternCache caches)
                  @ [(getCacheKey pattern options, mm)])
       \<and> (\<forall>mm. map_of (patternCache caches) (getCacheKey pattern options) = None \<and> res = Inr mm \<longrightarrow>
              patternCache caches' =
                (if length (patternCache caches) = CACHE_SIZE then tl (patternCache caches)
                 else patternCache caches) @ [(getCacheKey pattern options, mm)])
       \<and> getCacheSize (compileAll env emptyCaches anyCalls) \<le> CACHE_SIZE
       \<and> map fst (patternCache (compileAll env emptyCaches calls)) =
            lastN CACHE_SIZE (remdups (callKeys calls))"
proof -
  have a: "getCacheSize caches' \<le> CACHE_SIZE"
    using getOrCreateMatcher_inv[OF assms(1,2,3)] by (simp add: getCacheSize_def)
  have b: "res = Inr mm \<and> patternCache caches' =
                AList.delete (getCacheKey pattern options) (patternCache caches)
                  @ [(getCacheKey pattern options, mm)]"
    if "map_of (patternCache caches) (getCacheKey pattern options) = Some mm" for mm
    using getOrCreateMatcher_hit[OF that, of env] assms(3) by auto
  have c: "patternCache caches' =
                (if length (patternCache caches) = CACHE_SIZE then tl (patternCache caches)
                 else patternCache caches) @ [(getCacheKey pattern options, mm)]"
    if "map_of (patternCache caches) (getCacheKey pattern options) = None" "res = Inr mm" for mm
    using getOrCreateMatcher_miss[OF that(1) assms(1), of env mm caches'] assms(2,3) that(2)
    by auto
  have d: "getCacheSize (compileAll env emptyCaches anyCalls) \<le> CACHE_SIZE"
    using compileAll_inv[of emptyCaches env anyCalls]
    by (simp add: emptyCaches_def getCacheSize_def)
  from a b c d compileAll_keys[OF assms(4)] show ?thesis by blast
qed

theorem patternCache_bounded_lru_witness:
  "map fst (patternCache (compileAll testEnv emptyCaches
       [(''a'', defaultOptions), (''b'', defaultOptions), (''a'', defaultOptions)]))
     = [getCacheKey ''b'' defaultOptions, getCacheKey ''a'' defaultOptions]
   \<and> getCacheSize (snd (getOrCreateMatcher testEnv emptyCaches ''a'' defaultOptions)) \<le> CACHE_SIZE"
proof -
  have short: "list_all (\<lambda>(pattern, options). length pattern \<le> MAX_PATTERN_LENGTH)
      [(''a'', defaultOptions), (''b'', defaultOptions), (''a'', defaultOptions)]"
    by (simp add: MAX_PATTERN_LENGTH_def)
  have inv: "distinct (map fst (patternCache emptyCaches))"
      "length (patternCache emptyCaches) \<le> CACHE_SIZE"
    by (simp_all add: emptyCaches_def)
  have call: "getOrCreateMatcher testEnv emptyCaches ''a'' defaultOptions =
      (fst (getOrCreateMatcher testEnv emptyCaches ''a'' defaultOptions),
       snd (getOrCreateMatcher testEnv emptyCaches ''a'' defaultOptions))"
    by simp
  have ne: "getCacheKey ''a'' defaultOptions \<noteq> getCacheKey ''b'' defaultOptions"
    by (simp add: getCacheKey_def)
  show ?thesis
    using patternCache_bounded_lru[OF inv call short, of "[]"] ne
    by (simp add: callKeys_def lastN_def CACHE_SIZE_def)
qed

section \<open>Properties of brace expansion\<close>

lemma set_update_subset: "set (AList.update k v al) \<subseteq> insert (k, v) (set al)"
  by (induction al) auto

lemma set_delete_subset: "set (AList.delete k al) \<subseteq> set al"
  by (induction al) auto

lemma set_deleteFirstKey_subset: "set (deleteFirstKey al) \<subseteq> set al"
  using set_delete_subset by (fastforce simp: deleteFirstKey_def split: list.splits)

lemma addToBraceCache_ok:
  assumes "braceCacheOk env bc" and "result = expandUncached env pattern"
  shows "braceCacheOk env (addToBraceCache bc pattern result)"
proof -
  have "set (addToBraceCache bc pattern result) \<subseteq> insert (pattern, result) (set bc)"
    using set_update_subset[of pattern result bc]
      set_update_subset[of pattern result "deleteFirstKey bc"] set_deleteFirstKey_subset[of bc]
    by (auto simp: addToBraceCache_def)
  then show ?thesis
    using assms by (auto simp: braceCacheOk_def list_all_iff)
qed

lemma braceExpand_cached:
  assumes "braceCacheOk env bc" and "braceExpand env bc pattern options = (res, bc')"
  shows "res = (if nobrace options \<or> \<not> hasBracePair pattern then [pattern]
                else expandUncached env pattern)"
    and "braceCacheOk env bc'"
proof -
  have hit: "cached = expandUncached env pattern" if "map_of bc pattern = Some cached" for cached
    using that assms(1) map_of_SomeD[OF that] by (auto simp: braceCacheOk_def list_all_iff)
  show "res = (if nobrace options \<or> \<not> hasBracePair pattern then [pattern]
                else expandUncached env pattern)"
    using assms(2) hit
    by (auto simp: braceExpand_def expandUncached_def Let_def
        split: if_splits option.splits)
  show "braceCacheOk env bc'"
    using assms
    by (auto simp: braceExpand_def Let_def expandUncached_def
        intro!: addToBraceCache_ok split: if_splits option.splits)
qed

lemma trySimpleBraceExpand_simple:
  assumes "isSimpleBrace pattern prefix content suffix"
  shows "trySimpleBraceExpand pattern =
     Some (map (\<lambda>item. prefix @ item @ suffix) (str_split CHR '','' content))"
proof -
  from assms have p: "pattern = prefix @ CHR ''{'' # content @ CHR ''}'' # suffix"
    and pre: "CHR ''{'' \<notin> set prefix" and ne: "content \<noteq> []"
    and c1: "CHR ''{'' \<notin> set content" and c2: "CHR ''}'' \<notin> set content"
    and suf: "CHR ''{'' \<notin> set suffix" and dd: "\<not> str_includes content ''..''"
    by (simp_all add: isSimpleBrace_def)
  have t1: "takeWhile (\<lambda>c. c \<noteq> CHR ''{'') pattern = prefix"
    unfolding p using pre by (subst takeWhile_append2) auto
  have d1: "dropWhile (\<lambda>c. c \<noteq> CHR ''{'') pattern = CHR ''{'' # content @ CHR ''}'' # suffix"
    unfolding p using pre by (subst dropWhile_append2) auto
  have t2: "takeWhile (\<lambda>c. c \<noteq> CHR ''{'' \<and> c \<noteq> CHR ''}'') (content @ CHR ''}'' # suffix) = content"
    using c1 c2 by (subst takeWhile_append2) auto
  have d2: "dropWhile (\<lambda>c. c \<noteq> CHR ''{'' \<and> c \<noteq> CHR ''}'') (content @ CHR ''}'' # suffix)
      = CHR ''}'' # suffix"
    using c1 c2 by (subst dropWhile_append2) auto
  show ?thesis
    by (simp add: trySimpleBraceExpand_def t1 d1 t2 d2 ne suf dd)
qed

lemma trySimpleBraceExpand_SomeD:
  assumes "trySimpleBraceExpand pattern = Some r"
  shows "\<exists>prefix content suffix. isSimpleBrace pattern prefix content suffix
     \<and> r = map (\<lambda>item. prefix @ item @ suffix) (str_split CHR '','' content)"
proof -
  define prefix where "prefix = takeWhile (\<lambda>c. c \<noteq> CHR ''{'') pattern"
  from assms obtain c0 rest where
    d1: "dropWhile (\<lambda>c. c \<noteq> CHR ''{'') pattern = c0 # rest"
    by (auto simp: trySimpleBraceExpand_def Let_def split: list.splits)
  define content where "content = takeWhile (\<lambda>c. c \<noteq> CHR ''{'' \<and> c \<noteq> CHR ''}'') rest"
  from assms d1 obtain c1 suffix where
    d2: "dropWhile (\<lambda>c. c \<noteq> CHR ''{'' \<and> c \<noteq> CHR ''}'') rest = c1 # suffix"
    by (auto simp: trySimpleBraceExpand_def Let_def split: list.splits)
  from assms d1 d2 have rest: "c1 = CHR ''}''" "content \<noteq> []" "CHR ''{'' \<notin> set suffix"
    "\<not> str_includes content ''..''"
    "r = map (\<lambda>item. prefix @ item @ suffix) (str_split CHR '','' content)"
    by (auto simp: trySimpleBraceExpand_def Let_def content_def prefix_def split: if_splits)
  have c0: "c0 = CHR ''{''"
    using hd_dropWhile[of "\<lambda>c. c \<noteq> CHR ''{''" pattern] d1 by auto
  have p1: "pattern = prefix @ c0 # rest"
    using takeWhile_dropWhile_id[of "\<lambda>c. c \<noteq> CHR ''{''" pattern] d1 by (simp add: prefix_def)
  have p2: "rest = content @ c1 # suffix"
    using takeWhile_dropWhile_id[of "\<lambda>c. c \<noteq> CHR ''{'' \<and> c \<noteq> CHR ''}''" rest] d2
    by (simp add: content_def)
  have s1: "CHR ''{'' \<notin> set prefix"
    unfolding prefix_def by (auto dest: set_takeWhileD)
  have s2: "CHR ''{'' \<notin> set content" "CHR ''}'' \<notin> set content"
    unfolding content_def by (auto dest: set_takeWhileD)
  have "isSimpleBrace pattern prefix content suffix"
    using p1 p2 c0 rest s1 s2 by (simp add: isSimpleBrace_def)
  with rest(5) show ?thesis by blast
qed

lemma distinct_uniq: "distinct (uniq xs)"
  by (simp add: uniq_def)

lemma uniq_Nil_iff: "uniq xs = [] \<longleftrightarrow> xs = []"
  by (simp add: uniq_def)

lemma isSimpleBrace_hasBracePair:
  assumes "isSimpleBrace pattern prefix content suffix"
  shows "hasBracePair pattern"
proof -
  from assms have p: "pattern = prefix @ CHR ''{'' # content @ CHR ''}'' # suffix"
    and pre: "CHR ''{'' \<notin> set prefix"
    by (simp_all add: isSimpleBrace_def)
  have "dropWhile (\<lambda>c. c \<noteq> CHR ''{'') pattern = CHR ''{'' # content @ CHR ''}'' # suffix"
    unfolding p using pre by (subst dropWhile_append2) auto
  then show ?thesis by (simp add: hasBracePair_def)
qed

text \<open>The brace cache keeps its invariant through the constructor and the pattern cache.\<close>

lemma Minimatch_make_cache:
  assumes "braceCacheOk env bc" and "Minimatch_make env bc this = (this1, bc1)"
  shows "braceCacheOk env bc1"
proof (cases "(\<not> nocomment (mm_options this) \<and> take 1 (mm_pattern this) = ''#'') \<or> mm_pattern this = []")
  case True
  with assms show ?thesis by (auto simp: Minimatch_make_def split: if_splits)
next
  case False
  obtain expanded bc2 where
    e: "braceExpand env bc (mm_pattern (parseNegate this)) (mm_options (parseNegate this)) = (expanded, bc2)"
    by (cases "braceExpand env bc (mm_pattern (parseNegate this)) (mm_options (parseNegate this))")
  with False assms(2) have "bc1 = bc2"
    by (auto simp: Minimatch_make_def Let_def split: if_splits)
  with braceExpand_cached(2)[OF assms(1) e] show ?thesis by simp
qed

lemma Minimatch_new_cache:
  assumes "braceCacheOk env bc" and "Minimatch_new env bc pattern options = (res, bc1)"
  shows "braceCacheOk env bc1"
proof (cases "length pattern > MAX_PATTERN_LENGTH")
  case True
  with assms show ?thesis by (simp add: Minimatch_new_def)
next
  case False
  obtain this1 bc2 where
    m: "Minimatch_make env bc (Minimatch_init env pattern options) = (this1, bc2)"
    by (cases "Minimatch_make env bc (Minimatch_init env pattern options)")
  with False assms(2) have "bc1 = bc2" by (simp add: Minimatch_new_def)
  with Minimatch_make_cache[OF assms(1) m] show ?thesis by simp
qed

lemma getOrCreateMatcher_cache:
  assumes "braceCacheOk env (braceCache caches)"
    and "getOrCreateMatcher env caches pattern options = (res, caches')"
  shows "braceCacheOk env (braceCache caches')"
proof (cases "map_of (patternCache caches) (getCacheKey pattern options)")
  case (Some mm)
  with assms show ?thesis by (auto simp: getOrCreateMatcher_def Let_def)
next
  case None
  obtain r bc1 where n: "Minimatch_new env (braceCache caches) pattern options = (r, bc1)"
    by (cases "Minimatch_new env (braceCache caches) pattern options")
  with None assms(2) have "braceCache caches' = bc1"
    by (auto simp: getOrCreateMatcher_def Let_def split: sum.splits)
  with Minimatch_new_cache[OF assms(1) n] show ?thesis by simp
qed

lemma compileAll_cache:
  "braceCacheOk env (braceCache caches) \<Longrightarrow>
     braceCacheOk env (braceCache (compileAll env caches calls))"
proof (induction calls arbitrary: caches)
  case Nil
  then show ?case by simp
next
  case (Cons c calls)
  obtain p opts where c: "c = (p, opts)" by (cases c)
  obtain res caches' where g: "getOrCreateMatcher env caches p opts = (res, caches')"
    by (cases "getOrCreateMatcher env caches p opts")
  from getOrCreateMatcher_cache[OF Cons.prems g] Cons.IH[of caches'] show ?case
    by (simp add: c g)
qed

lemma braceCacheOk_reachable:
  "braceCacheOk env (braceCache (compileAll env emptyCaches calls))"
  by (rule compileAll_cache) (simp add: braceCacheOk_def emptyCaches_def)

lemma braceExpand_no_pair:
  assumes "braceExpand env bc pattern options = (res, bc')"
    and "nobrace options \<or> \<not> hasBracePair pattern"
  shows "res = [pattern]"
  using assms by (auto simp: braceExpand_def split: if_splits)

text \<open>
  The fast path: a pattern of the simple shape gives one string per comma-separated
  item, in order and with its duplicates, and the general expander is not asked.
\<close>

lemma braceExpand_simple:
  assumes "braceCacheOk env bc" and "braceExpand env bc pattern options = (res, bc')"
    and "\<not> nobrace options" and "isSimpleBrace pattern prefix content suffix"
  shows "res = map (\<lambda>item. prefix @ item @ suffix) (str_split CHR '','' content)"
  using braceExpand_cached(1)[OF assms(1,2)] assms(3)
    isSimpleBrace_hasBracePair[OF assms(4)] trySimpleBraceExpand_simple[OF assms(4)]
  by (simp add: expandUncached_def)

text \<open>
  The general path: it gives up on a throw, on more than 10000 results and on none,
  and removes the duplicates otherwise.
\<close>

lemma braceExpand_general:
  assumes "braceCacheOk env bc" and "braceExpand env bc pattern options = (res, bc')"
    and "\<not> nobrace options" and "hasBracePair pattern"
    and "trySimpleBraceExpand pattern = None"
  shows "braces env pattern = None \<Longrightarrow> res = [pattern]"
    and "braces env pattern = Some expanded \<Longrightarrow>
           res = (if length expanded > MAX_EXPANSION_LENGTH \<or> expanded = [] then [pattern]
                  else uniq expanded)"
  using braceExpand_cached(1)[OF assms(1,2)] assms(3,4,5)
  by (simp_all add: expandUncached_def uniq_Nil_iff)

lemma str_split_commas:
  "str_split CHR '','' (replicate n (CHR '','')) = replicate (Suc n) []"
  by (induction n) auto

lemma commas_no_dots: "\<not> str_includes (replicate n (CHR '','')) ''..''"
  by (induction n) (auto simp: startsWith_def)

lemma commas_simple:
  "isSimpleBrace (CHR ''{'' # replicate (Suc n) (CHR '','') @ ''}'') [] (replicate (Suc n) (CHR '','')) []"
  unfolding isSimpleBrace_def using commas_no_dots[of "Suc n"] by auto

text \<open>
  C6: \<open>braceExpand\<close> returns the expansion with duplicates removed, and \<open>[pattern]\<close>
  when the expansion would have more than 10000 results. The code does neither for a
  pattern of the simple shape, whatever the general expander is: the fast path
  returns before the step that removes duplicates and before the test against
  \<open>MAX_EXPANSION_LENGTH\<close>, which the general path both has. \<open>{a,a}\<close> gives \<open>a\<close>
  twice, where the list without duplicates is \<open>a\<close> once; a group of 10001 commas
  gives 10002 (empty) strings from a pattern of 10003 characters.
\<close>

theorem braceExpand_fast_path_keeps_duplicates:
  "fst (braceExpand env [] ''{a,a}'' defaultOptions) = [''a'', ''a'']
   \<and> uniq [''a'', ''a''] = [''a'']
   \<and> fst (braceExpand env [] (CHR ''{'' # replicate 10001 (CHR '','') @ ''}'') defaultOptions)
       = replicate 10002 []
   \<and> MAX_EXPANSION_LENGTH < length (replicate 10002 ([] :: string))"
proof -
  have ok: "braceCacheOk env []" by (simp add: braceCacheOk_def)
  have nb: "\<not> nobrace defaultOptions" by (simp add: defaultOptions_def)
  have call: "braceExpand env [] p defaultOptions =
      (fst (braceExpand env [] p defaultOptions), snd (braceExpand env [] p defaultOptions))"
    for p by simp
  have s1: "isSimpleBrace ''{a,a}'' [] ''a,a'' []"
    by (simp add: isSimpleBrace_def startsWith_def)
  have a: "fst (braceExpand env [] ''{a,a}'' defaultOptions) = [''a'', ''a'']"
    using braceExpand_simple[OF ok call nb s1] by simp
  have b: "uniq [''a'', ''a''] = [''a'']" by (simp add: uniq_def)
  have n: "(10001::nat) = Suc 10000" by simp
  have s2: "isSimpleBrace (CHR ''{'' # replicate 10001 (CHR '','') @ ''}'') []
      (replicate 10001 (CHR '','')) []"
    unfolding n by (rule commas_simple)
  have "fst (braceExpand env [] (CHR ''{'' # replicate 10001 (CHR '','') @ ''}'') defaultOptions)
      = map (\<lambda>item. [] @ item @ []) (replicate (Suc 10001) [])"
    using braceExpand_simple[OF ok call nb s2] by (simp only: str_split_commas)
  then have c: "fst (braceExpand env [] (CHR ''{'' # replicate 10001 (CHR '','') @ ''}'')
      defaultOptions) = replicate 10002 []"
    by simp
  have d: "MAX_EXPANSION_LENGTH < length (replicate 10002 ([] :: string))"
    by (simp add: MAX_EXPANSION_LENGTH_def)
  from a b c d show ?thesis by blast
qed

end
